theory Spec2Isabelle
  imports Main
begin

section \<open>JavaScript values, errors and strings\<close>

text \<open>
  The script \<^verbatim>\<open>main.js\<close> is present twice in the source: a first copy (lines 1-254) and a
  second, commented copy (lines 256-531).  The lowering functions
  (\<^verbatim>\<open>generateType\<close>, \<^verbatim>\<open>generateMember\<close>, ...) and the traversal are the same text in both;
  the rewrite of the schema AST differs, and is modelled once per copy.

  Every \<^verbatim>\<open>throw\<close> and every property read of \<^verbatim>\<open>undefined\<close> ends in the \<^verbatim>\<open>catch\<close> handler of the
  run, which logs and writes nothing: it is the \<open>Inl\<close> branch of a result.
\<close>

datatype error =
    TypeError
  | NoDefinitionsFound
  | GraphQLSyntaxError

text \<open>Nodes that carry a \<^verbatim>\<open>name\<close> or a \<^verbatim>\<open>value\<close>: identifiers, literals, qualified names.\<close>

datatype expression =
    Identifier string
  | StringLiteral string
  | NumericLiteral int
  | BooleanLiteral bool
  | TSQualifiedName expression string
  | OtherExpression

text \<open>What a lowering function can return: a string, \<^verbatim>\<open>undefined\<close>, or an AST node.\<close>

datatype jsvalue =
    Str string
  | Undefined
  | Node expression

text \<open>\<^verbatim>\<open>node.name\<close>: only an identifier has the property.\<close>

fun nameProp :: "expression \<Rightarrow> jsvalue" where
  "nameProp (Identifier n) = Str n"
| "nameProp _ = Undefined"

text \<open>String conversion inside a template literal or a \<^verbatim>\<open>+\<close> with a string.\<close>

fun toString :: "jsvalue \<Rightarrow> string" where
  "toString (Str s) = s"
| "toString Undefined = ''undefined''"
| "toString (Node _) = ''[object Object]''"

text \<open>String conversion of an element by \<^verbatim>\<open>Array.prototype.join\<close>: \<^verbatim>\<open>undefined\<close> is empty.\<close>

fun joinElement :: "jsvalue \<Rightarrow> string" where
  "joinElement (Str s) = s"
| "joinElement Undefined = []"
| "joinElement (Node _) = ''[object Object]''"

fun join :: "string \<Rightarrow> string list \<Rightarrow> string" where
  "join sep [] = []"
| "join sep [x] = x"
| "join sep (x # y # ys) = x @ sep @ join sep (y # ys)"

text \<open>
  \<^verbatim>\<open>toLowerCase\<close> is applied to GraphQL names only, which are ASCII by grammar: it acts on
  the letters \<^verbatim>\<open>A-Z\<close>.  \<^verbatim>\<open>toUpperCase\<close> is applied to the members of an enum, which are any
  TypeScript identifiers, and the function of the runtime is Unicode-aware: the traversal
  takes it as a parameter (\<open>upper\<close>).  On a string of ASCII characters it is
  \<open>toUpperCaseASCII\<close>, which stands for it in the examples.
\<close>

definition upperLetters :: string where
  "upperLetters = ''ABCDEFGHIJKLMNOPQRSTUVWXYZ''"

definition lowerLetters :: string where
  "lowerLetters = ''abcdefghijklmnopqrstuvwxyz''"

definition toLowerChar :: "char \<Rightarrow> char" where
  "toLowerChar c = (case map_of (zip upperLetters lowerLetters) c of None \<Rightarrow> c | Some l \<Rightarrow> l)"

definition toUpperChar :: "char \<Rightarrow> char" where
  "toUpperChar c = (case map_of (zip lowerLetters upperLetters) c of None \<Rightarrow> c | Some u \<Rightarrow> u)"

definition toLowerCase :: "string \<Rightarrow> string" where
  "toLowerCase s = map toLowerChar s"

definition toUpperCaseASCII :: "string \<Rightarrow> string" where
  "toUpperCaseASCII s = map toUpperChar s"

definition startsWith :: "string \<Rightarrow> string \<Rightarrow> bool" where
  "startsWith s p = (take (length p) s = p)"

definition endsWith :: "string \<Rightarrow> string \<Rightarrow> bool" where
  "endsWith s p = (length p \<le> length s \<and> drop (length s - length p) s = p)"

text \<open>A \<^verbatim>\<open>map\<close> whose callback can throw stops at the first throw.\<close>

fun mapE :: "('a \<Rightarrow> error + 'b) \<Rightarrow> 'a list \<Rightarrow> error + 'b list" where
  "mapE f [] = Inr []"
| "mapE f (x # xs) =
     (case f x of
        Inl e \<Rightarrow> Inl e
      | Inr y \<Rightarrow> (case mapE f xs of Inl e \<Rightarrow> Inl e | Inr ys \<Rightarrow> Inr (y # ys)))"

section \<open>The type AST\<close>

datatype member_type =
    TSPropertySignature
  | TSMethodSignature
  | TSIndexSignature
  | TSCallSignatureDeclaration

text \<open>
  A type annotation as the parser gives it.  The type-argument list of a reference is
  optional (\<^verbatim>\<open>typeParameters\<close> is absent on a bare \<^verbatim>\<open>Maybe\<close>).  A member's \<open>typeAnnotation\<close> is the
  type inside its annotation wrapper, when it has one; \<open>optional\<close> is the \<^verbatim>\<open>?\<close> flag.
\<close>

datatype tstype =
    TSStringKeyword
  | TSNumberKeyword
  | TSBooleanKeyword
  | TSAnyKeyword
  | TSNullKeyword
  | TSTypeLiteral "member list"
  | TSTypeReference expression "tstype list option"
  | TSIndexedAccessType tstype tstype
  | TSLiteralType expression
  | TSIntersectionType "tstype list"
  | TSUnionType "tstype list"
  | TSArrayType tstype
and member =
    Member (mtype: member_type) (key: "expression option")
      (typeAnnotation: "tstype option") (optional: bool)

section \<open>Type Mapper: \<^verbatim>\<open>generateType\<close>\<close>

text \<open>\<^verbatim>\<open>x.type === 'TSLiteralType' && x.literal.type === 'StringLiteral'\<close>, then \<^verbatim>\<open>x.literal.value\<close>.\<close>

fun stringLiteralType :: "tstype \<Rightarrow> string option" where
  "stringLiteralType (TSLiteralType (StringLiteral v)) = Some v"
| "stringLiteralType _ = None"

text \<open>
  \<^verbatim>\<open>typeAnnotation.objectType.typeName\<close>: the property exists on a type reference only; on any
  other object type it is \<^verbatim>\<open>undefined\<close>, and reading \<^verbatim>\<open>.name\<close> of it throws.
\<close>

fun objectTypeName :: "tstype \<Rightarrow> expression option" where
  "objectTypeName (TSTypeReference tn _) = Some tn"
| "objectTypeName _ = None"

fun generateType :: "tstype \<Rightarrow> error + jsvalue" where
  "generateType TSStringKeyword = Inr (Str ''String'')"
| "generateType (TSTypeLiteral ms) = Inr (Str ''String'')"
| "generateType TSNumberKeyword = Inr (Str ''Int'')"
| "generateType TSBooleanKeyword = Inr (Str ''Boolean'')"
| "generateType (TSTypeReference tn None) =
     (if nameProp tn = Str ''Scalars'' then Inr (Str ''Unknown'')
      else if nameProp tn = Str ''Maybe'' then Inl TypeError
      else if nameProp tn = Str ''Array'' then Inl TypeError
      else Inr (nameProp tn))"
| "generateType (TSTypeReference tn (Some [])) =
     (if nameProp tn = Str ''Scalars'' then Inr (Str ''Unknown'')
      else if nameProp tn = Str ''Maybe'' then Inr (Str ''Unknown'')
      else if nameProp tn = Str ''Array'' then Inr (Str ''Unknown'')
      else Inr (nameProp tn))"
| "generateType (TSTypeReference tn (Some (p # ps))) =
     (if nameProp tn = Str ''Scalars'' then
        (case stringLiteralType p of Some v \<Rightarrow> Inr (Str v) | None \<Rightarrow> Inr (Str ''Unknown''))
      else if nameProp tn = Str ''Maybe'' then generateType p
      else if nameProp tn = Str ''Array'' then
        (case generateType p of
           Inl e \<Rightarrow> Inl e
         | Inr v \<Rightarrow> Inr (Str (''['' @ toString v @ '']'')))
      else Inr (nameProp tn))"
| "generateType (TSIndexedAccessType objectType indexType) =
     (case objectTypeName objectType of
        None \<Rightarrow> Inl TypeError
      | Some tn \<Rightarrow>
          if nameProp tn = Str ''Scalars'' then
            (case stringLiteralType indexType of
               Some v \<Rightarrow> Inr (Str v)
             | None \<Rightarrow> Inr (Str ''Unknown''))
          else Inr (Node tn))"
| "generateType TSAnyKeyword = Inr (Str ''String'')"
| "generateType _ = Inr (Str ''Unknown'')"

section \<open>Member Lowerer: \<^verbatim>\<open>generateMember\<close>\<close>

fun generateMember :: "member \<Rightarrow> error + string" where
  "generateMember (Member TSPropertySignature (Some k) (Some t) opt) =
     (case generateType t of
        Inl e \<Rightarrow> Inl e
      | Inr ty \<Rightarrow>
          Inr (''  '' @ toString (nameProp k) @ '': '' @ toString ty
                 @ (if opt then [] else ''!'')))"
| "generateMember _ = Inr []"

section \<open>Declaration Lowerer\<close>

definition newline :: string where
  "newline = [CHR 0x0A]"

text \<open>\<^verbatim>\<open>member.key.name\<close> inside \<^verbatim>\<open>generateScalarsDefinition\<close>: a member without a key throws.\<close>

fun keyName :: "member \<Rightarrow> error + jsvalue" where
  "keyName (Member _ None _ _) = Inl TypeError"
| "keyName (Member _ (Some k) _ _) = Inr (nameProp k)"

fun generateScalarsDefinition :: "tstype \<Rightarrow> error + string" where
  "generateScalarsDefinition (TSTypeLiteral ms) =
     (if length ms > 0 then
        (case mapE keyName ms of
           Inl e \<Rightarrow> Inl e
         | Inr ns \<Rightarrow>
             Inr (''scalar '' @ join (newline @ '' scalar '') (map joinElement ns) @ newline))
      else Inr [])"
| "generateScalarsDefinition _ = Inr []"

text \<open>\<^verbatim>\<open>typeAnnotation.types.find(t => t.type === 'TSTypeLiteral')\<close>, as the members found.\<close>

fun findTypeLiteral :: "tstype list \<Rightarrow> member list option" where
  "findTypeLiteral [] = None"
| "findTypeLiteral (TSTypeLiteral ms # ts) = Some ms"
| "findTypeLiteral (t # ts) = findTypeLiteral ts"

text \<open>The intersection case opens with \<^verbatim>\<open>(n\<close> in the source, and falls through when it finds nothing.\<close>

fun generateArgumentsDefinition :: "tstype \<Rightarrow> error + string" where
  "generateArgumentsDefinition (TSTypeLiteral ms) =
     (if length ms > 0 then
        (case mapE generateMember ms of
           Inl e \<Rightarrow> Inl e
         | Inr ls \<Rightarrow> Inr (''('' @ join '', '' ls @ '')''))
      else Inr [])"
| "generateArgumentsDefinition (TSIntersectionType ts) =
     (case findTypeLiteral ts of
        None \<Rightarrow> Inr []
      | Some ms \<Rightarrow>
          if length ms > 0 then
            (case mapE generateMember ms of
               Inl e \<Rightarrow> Inl e
             | Inr ls \<Rightarrow> Inr (''(n'' @ join '', '' ls @ '')''))
          else Inr [])"
| "generateArgumentsDefinition _ = Inr []"

fun generateTypeScriptDefinition :: "tstype \<Rightarrow> error + string" where
  "generateTypeScriptDefinition (TSTypeLiteral ms) =
     (if length ms > 0 then
        (case mapE generateMember ms of
           Inl e \<Rightarrow> Inl e
         | Inr ls \<Rightarrow> Inr (''{'' @ newline @ join newline ls @ newline @ ''}''))
      else Inr [])"
| "generateTypeScriptDefinition (TSIntersectionType ts) =
     (case findTypeLiteral ts of
        None \<Rightarrow> Inr []
      | Some ms \<Rightarrow>
          if length ms > 0 then
            (case mapE generateMember ms of
               Inl e \<Rightarrow> Inl e
             | Inr ls \<Rightarrow> Inr (''{'' @ newline @ join newline ls @ newline @ ''}''))
          else Inr [])"
| "generateTypeScriptDefinition _ = Inr []"

section \<open>Extraction Driver: the traversal\<close>

text \<open>
  The state of the traversal: the text \<^verbatim>\<open>typeDefs\<close> and the table \<^verbatim>\<open>mutationArgs\<close>.
  The nodes with a visitor, in the order the traversal reaches them: a tagged template
  (its tag and the cooked text of its quasis, \<open>None\<close> where a quasi has none), a type alias
  (the name of its identifier and its type annotation), an enum (its name and the \<^verbatim>\<open>id\<close> of
  each member).
\<close>

record extraction =
  typeDefs :: string
  mutationArgs :: "string \<rightharpoonup> string"

datatype ast_node =
    TaggedTemplateExpression expression "string option list"
  | TSTypeAliasDeclaration string tstype
  | TSEnumDeclaration string "expression list"
  | OtherNode

fun isIdentifier :: "expression \<Rightarrow> bool" where
  "isIdentifier (Identifier _) = True"
| "isIdentifier _ = False"

fun cooked :: "string option \<Rightarrow> string" where
  "cooked None = []"
| "cooked (Some s) = s"

text \<open>\<^verbatim>\<open>member.id.name.toUpperCase()\<close>: the call throws where \<^verbatim>\<open>name\<close> is \<^verbatim>\<open>undefined\<close>.\<close>

fun enumMember :: "(string \<Rightarrow> string) \<Rightarrow> expression \<Rightarrow> error + string" where
  "enumMember upper (Identifier n) = Inr (upper n)"
| "enumMember upper _ = Inl TypeError"

fun visit :: "(string \<Rightarrow> string) \<Rightarrow> ast_node \<Rightarrow> extraction \<Rightarrow> error + extraction" where
  "visit upper (TaggedTemplateExpression tag quasis) st =
     (if nameProp tag = Str ''gql'' \<or> (isIdentifier tag \<and> nameProp tag = Str ''graphql'')
      then Inr (st\<lparr>typeDefs := typeDefs st @ concat (map cooked quasis) @ newline\<rparr>)
      else Inr st)"
| "visit upper (TSTypeAliasDeclaration idName ta) st =
     (case (if startsWith idName ''Mutation'' \<and> endsWith idName ''Args''
            then (case generateArgumentsDefinition ta of
                    Inl e \<Rightarrow> Inl e
                  | Inr a \<Rightarrow> Inr (st\<lparr>mutationArgs := (mutationArgs st)(idName \<mapsto> a)\<rparr>))
            else Inr st) of
        Inl e \<Rightarrow> Inl e
      | Inr st1 \<Rightarrow>
          if idName = ''Scalars'' then
            (case generateScalarsDefinition ta of
               Inl e \<Rightarrow> Inl e
             | Inr s \<Rightarrow> Inr (st1\<lparr>typeDefs := typeDefs st1 @ s\<rparr>))
          else
            (case generateTypeScriptDefinition ta of
               Inl e \<Rightarrow> Inl e
             | Inr typeDefinition \<Rightarrow>
                 if typeDefinition \<noteq> [] then
                   Inr (st1\<lparr>typeDefs := typeDefs st1 @ ''type '' @ idName @ '' ''
                                @ typeDefinition @ newline\<rparr>)
                 else Inr st1))"
| "visit upper (TSEnumDeclaration idName members) st =
     (case mapE (enumMember upper) members of
        Inl e \<Rightarrow> Inl e
      | Inr ns \<Rightarrow>
          Inr (st\<lparr>typeDefs := typeDefs st @ ''enum '' @ idName @ '' {'' @ newline
                      @ join '', '' ns @ newline @ ''}'' @ newline\<rparr>))"
| "visit upper OtherNode st = Inr st"

text \<open>A \<^verbatim>\<open>forEach\<close> (or the traversal) whose callback can throw, over a state.\<close>

fun forEach :: "('a \<Rightarrow> 's \<Rightarrow> error + 's) \<Rightarrow> 'a list \<Rightarrow> 's \<Rightarrow> error + 's" where
  "forEach f [] s = Inr s"
| "forEach f (x # xs) s = (case f x s of Inl e \<Rightarrow> Inl e | Inr s' \<Rightarrow> forEach f xs s')"

definition traverse :: "(string \<Rightarrow> string) \<Rightarrow> ast_node list \<Rightarrow> error + extraction" where
  "traverse upper nodes = forEach (visit upper) nodes \<lparr>typeDefs = [], mutationArgs = Map.empty\<rparr>"

section \<open>The schema AST\<close>

text \<open>
  A type node is a named type, a list or a non-null wrapper.  The arguments of a field
  have the shape of fields: binding stores the field list of another definition there.
  A definition has its kind, the value of its name and its fields (\<open>fields'\<close>, as \<open>fields\<close> is taken); \<open>SchemaDefinition\<close>
  stands for the nodes that carry no \<^verbatim>\<open>name\<close> (a schema definition, an anonymous operation),
  whose \<open>name\<close> below is never read before the read of \<^verbatim>\<open>name.value\<close> has thrown.  Scalars, enums
  and every other named node behave alike here.
\<close>

datatype gtype =
    NamedType string
  | ListType gtype
  | NonNullType gtype

datatype field =
    FieldDefinition (fname: string) (arguments: "field list") (ftype: gtype)

datatype kind =
    ObjectTypeDefinition
  | InputObjectTypeDefinition
  | ScalarTypeDefinition
  | EnumTypeDefinition
  | SchemaDefinition

record definitionNode =
  kind :: kind
  name :: string
  fields' :: "field list"

section \<open>Schema Rewriter\<close>

text \<open>\<^verbatim>\<open>findIndex\<close>, and \<^verbatim>\<open>find\<close> by the position of the node found (the node is mutated later).\<close>

fun findIndex :: "('a \<Rightarrow> bool) \<Rightarrow> 'a list \<Rightarrow> nat option" where
  "findIndex P [] = None"
| "findIndex P (x # xs) = (if P x then Some 0 else map_option Suc (findIndex P xs))"

definition isObjectNamed :: "string \<Rightarrow> definitionNode \<Rightarrow> bool" where
  "isObjectNamed n d = (kind d = ObjectTypeDefinition \<and> name d = n)"

text \<open>Step 1: \<^verbatim>\<open>splice\<close> the first object type named \<^verbatim>\<open>Query\<close> out and \<^verbatim>\<open>push\<close> it.\<close>

definition reposition :: "definitionNode list \<Rightarrow> definitionNode list" where
  "reposition ds =
     (case findIndex (isObjectNamed ''Query'') ds of
        None \<Rightarrow> ds
      | Some i \<Rightarrow> take i ds @ drop (Suc i) ds @ [ds ! i])"

text \<open>The definition matched for a field: an object type named, ignoring case, \<open>op  field Args\<close>.\<close>

definition isArgsOf :: "string \<Rightarrow> string \<Rightarrow> definitionNode \<Rightarrow> bool" where
  "isArgsOf opName fieldName d =
     (kind d = ObjectTypeDefinition
      \<and> toLowerCase (name d) = toLowerCase (opName @ fieldName @ ''Args''))"

text \<open>
  \<^verbatim>\<open>arg.type.type.name.value\<close>: there is such a value when the argument's type is a non-null
  or a list wrapper directly around a named type.
\<close>

fun typeTypeName :: "gtype \<Rightarrow> string option" where
  "typeTypeName (NonNullType (NamedType n)) = Some n"
| "typeTypeName (ListType (NamedType n)) = Some n"
| "typeTypeName _ = None"

text \<open>
  First copy (line 97): the callback reads \<^verbatim>\<open>arg.type.type.name.value\<close> unguarded, at the first
  definition of kind object type it meets; the read throws where there is no such value.
\<close>

fun findTarget1 :: "field \<Rightarrow> definitionNode list \<Rightarrow> error + nat option" where
  "findTarget1 arg [] = Inr None"
| "findTarget1 arg (d # ds) =
     (if kind d = ObjectTypeDefinition then
        (case typeTypeName (ftype arg) of
           None \<Rightarrow> Inl TypeError
         | Some n \<Rightarrow>
             if name d = n then Inr (Some 0)
             else (case findTarget1 arg ds of
                     Inl e \<Rightarrow> Inl e
                   | Inr r \<Rightarrow> Inr (map_option Suc r)))
      else (case findTarget1 arg ds of
              Inl e \<Rightarrow> Inl e
            | Inr r \<Rightarrow> Inr (map_option Suc r)))"

text \<open>Second copy (lines 359, 378): the same search behind the guard.\<close>

definition findTarget2 :: "field \<Rightarrow> definitionNode list \<Rightarrow> nat option" where
  "findTarget2 arg ds =
     findIndex (\<lambda>d. kind d = ObjectTypeDefinition
                  \<and> (case typeTypeName (ftype arg) of None \<Rightarrow> False | Some n \<Rightarrow> name d = n)) ds"

text \<open>\<^verbatim>\<open>t.kind = 'InputObjectTypeDefinition'\<close>, on the node at position \<open>i\<close>.\<close>

definition reclassify :: "nat \<Rightarrow> definitionNode list \<Rightarrow> definitionNode list" where
  "reclassify i ds = ds[i := (ds ! i)\<lparr>kind := InputObjectTypeDefinition\<rparr>]"

definition changeArgumentType1 :: "field \<Rightarrow> definitionNode list \<Rightarrow> error + definitionNode list" where
  "changeArgumentType1 arg ds =
     (case findTarget1 arg ds of
        Inl e \<Rightarrow> Inl e
      | Inr None \<Rightarrow> Inr ds
      | Inr (Some i) \<Rightarrow> Inr (reclassify i ds))"

definition changeArgumentType2 :: "field \<Rightarrow> definitionNode list \<Rightarrow> error + definitionNode list" where
  "changeArgumentType2 arg ds =
     (case findTarget2 arg ds of
        None \<Rightarrow> Inr ds
      | Some i \<Rightarrow> Inr (reclassify i ds))"

text \<open>The Query pass of the first copy (lines 106-115) binds and changes no kind.\<close>

definition keepArgumentType :: "field \<Rightarrow> definitionNode list \<Rightarrow> error + definitionNode list" where
  "keepArgumentType arg ds = Inr ds"

text \<open>\<^verbatim>\<open>field.arguments = args\<close>, on field \<open>j\<close> of the definition at position \<open>q\<close>.\<close>

fun withArguments :: "field list \<Rightarrow> field \<Rightarrow> field" where
  "withArguments args (FieldDefinition n _ t) = FieldDefinition n args t"

definition setArguments :: "nat \<Rightarrow> nat \<Rightarrow> field list \<Rightarrow> definitionNode list \<Rightarrow> definitionNode list" where
  "setArguments q j args ds =
     ds[q := (ds ! q)\<lparr>fields' := (fields' (ds ! q))[j := withArguments args (fields' (ds ! q) ! j)]\<rparr>]"

text \<open>
  The body of the loop over the fields of the operation type at position \<open>q\<close>, for field
  \<open>j\<close>: look the Args definition up in the current definitions, store its fields as the
  arguments, then run \<open>step\<close> on each of those fields.
\<close>

definition bindField ::
  "(field \<Rightarrow> definitionNode list \<Rightarrow> error + definitionNode list) \<Rightarrow> string \<Rightarrow> nat
     \<Rightarrow> nat \<times> field \<Rightarrow> definitionNode list \<Rightarrow> error + definitionNode list" where
  "bindField step opName q jf ds =
     (case findIndex (isArgsOf opName (fname (snd jf))) ds of
        None \<Rightarrow> Inr ds
      | Some a \<Rightarrow> forEach step (fields' (ds ! a)) (setArguments q (fst jf) (fields' (ds ! a)) ds))"

definition bindArguments ::
  "(field \<Rightarrow> definitionNode list \<Rightarrow> error + definitionNode list) \<Rightarrow> string
     \<Rightarrow> definitionNode list \<Rightarrow> error + definitionNode list" where
  "bindArguments step opName ds =
     (case findIndex (isObjectNamed opName) ds of
        None \<Rightarrow> Inr ds
      | Some q \<Rightarrow> forEach (bindField step opName q) (enumerate 0 (fields' (ds ! q))) ds)"

text \<open>
  The regular expressions of the prune step, \<^verbatim>\<open>/pre.*suf/\<close>: \<open>pre\<close> somewhere in the string,
  then any characters but line terminators, then \<open>suf\<close>.  Of the line terminators, line
  feed and carriage return are characters of the strings modelled here.
\<close>

definition lineTerminator :: "char \<Rightarrow> bool" where
  "lineTerminator c = (c = CHR 0x0A \<or> c = CHR 0x0D)"

fun dotStarThen :: "string \<Rightarrow> string \<Rightarrow> bool" where
  "dotStarThen suf [] = startsWith [] suf"
| "dotStarThen suf (c # cs) =
     (startsWith (c # cs) suf \<or> (\<not> lineTerminator c \<and> dotStarThen suf cs))"

fun regexTest :: "string \<Rightarrow> string \<Rightarrow> string \<Rightarrow> bool" where
  "regexTest pre suf [] = (startsWith [] pre \<and> dotStarThen suf (drop (length pre) []))"
| "regexTest pre suf (c # cs) =
     ((startsWith (c # cs) pre \<and> dotStarThen suf (drop (length pre) (c # cs)))
      \<or> regexTest pre suf cs)"

definition hasNoName :: "definitionNode \<Rightarrow> bool" where
  "hasNoName d = (kind d = SchemaDefinition)"

definition pruned1 :: "string \<Rightarrow> bool" where
  "pruned1 n = (regexTest ''Mutation'' ''Arg'' n \<or> regexTest ''Query'' ''Arg'' n)"

definition pruned2 :: "string \<Rightarrow> bool" where
  "pruned2 n = (regexTest ''Mutation'' ''Args'' n \<or> regexTest ''Query'' ''Args'' n)"

text \<open>Lines 117-120 and 389-393: the filters read \<^verbatim>\<open>name.value\<close> of every definition.\<close>

definition prune1 :: "definitionNode list \<Rightarrow> error + definitionNode list" where
  "prune1 ds =
     (if list_ex hasNoName ds then Inl TypeError
      else Inr (filter (\<lambda>d. \<not> regexTest ''Query'' ''Arg'' (name d))
                 (filter (\<lambda>d. \<not> regexTest ''Mutation'' ''Arg'' (name d)) ds)))"

definition prune2 :: "definitionNode list \<Rightarrow> error + definitionNode list" where
  "prune2 ds =
     (if list_ex hasNoName ds then Inl TypeError
      else Inr (filter (\<lambda>d. \<not> regexTest ''Mutation'' ''Args'' (name d)
                           \<and> \<not> regexTest ''Query'' ''Args'' (name d)) ds))"

text \<open>The rewrite of the first copy (lines 82-120): Mutation is bound first.\<close>

definition rewrite1 :: "definitionNode list \<Rightarrow> error + definitionNode list" where
  "rewrite1 ds =
     (case bindArguments changeArgumentType1 ''Mutation'' (reposition ds) of
        Inl e \<Rightarrow> Inl e
      | Inr s1 \<Rightarrow>
          (case bindArguments keepArgumentType ''Query'' s1 of
             Inl e \<Rightarrow> Inl e
           | Inr s2 \<Rightarrow> prune1 s2))"

text \<open>The rewrite of the second copy (lines 342-393): Query is bound first.\<close>

definition rewrite2 :: "definitionNode list \<Rightarrow> error + definitionNode list" where
  "rewrite2 ds =
     (case bindArguments changeArgumentType2 ''Query'' (reposition ds) of
        Inl e \<Rightarrow> Inl e
      | Inr s1 \<Rightarrow>
          (case bindArguments changeArgumentType2 ''Mutation'' s1 of
             Inl e \<Rightarrow> Inl e
           | Inr s2 \<Rightarrow> prune2 s2))"

section \<open>The run\<close>

text \<open>
  The body of the \<^verbatim>\<open>try\<close> block, from the parsed source to the definitions handed to the
  printer.  The schema parser is a parameter (\<open>None\<close>: it throws a syntax error), as is the
  \<^verbatim>\<open>toUpperCase\<close> of the runtime.  A result
  \<open>Inl e\<close> is a run that ends in the \<^verbatim>\<open>catch\<close> handler: the error is logged, nothing is
  printed or written.
\<close>

definition run ::
  "(definitionNode list \<Rightarrow> error + definitionNode list) \<Rightarrow> (string \<Rightarrow> string)
     \<Rightarrow> (string \<Rightarrow> definitionNode list option)
     \<Rightarrow> ast_node list \<Rightarrow> error + definitionNode list" where
  "run rewrite upper parse nodes =
     (case traverse upper nodes of
        Inl e \<Rightarrow> Inl e
      | Inr st \<Rightarrow>
          if typeDefs st = [] then Inl NoDefinitionsFound
          else (case parse (typeDefs st) of
                  None \<Rightarrow> Inl GraphQLSyntaxError
                | Some ds \<Rightarrow> rewrite ds))"

definition main1 ::
  "(string \<Rightarrow> string) \<Rightarrow> (string \<Rightarrow> definitionNode list option) \<Rightarrow> ast_node list
     \<Rightarrow> error + definitionNode list" where
  "main1 = run rewrite1"

definition main2 ::
  "(string \<Rightarrow> string) \<Rightarrow> (string \<Rightarrow> definitionNode list option) \<Rightarrow> ast_node list
     \<Rightarrow> error + definitionNode list" where
  "main2 = run rewrite2"

section \<open>Relations between documents\<close>

text \<open>
  What the rewrite can do to a node between two moments: the name stays; the kind stays or
  goes from object type to input type; the fields stay, except on the nodes named
  \<^verbatim>\<open>Query\<close> and \<^verbatim>\<open>Mutation\<close>, whose fields receive arguments.
\<close>

definition evolved :: "definitionNode \<Rightarrow> definitionNode \<Rightarrow> bool" where
  "evolved d d' =
     (name d' = name d
      \<and> (kind d' = kind d
         \<or> (kind d = ObjectTypeDefinition \<and> kind d' = InputObjectTypeDefinition))
      \<and> (name d = ''Query'' \<or> name d = ''Mutation'' \<or> fields' d' = fields' d))"

text \<open>
  The names a binding lookup can match: in lower case, \<^verbatim>\<open>query\<close> or \<^verbatim>\<open>mutation\<close>, then a field
  name, then \<^verbatim>\<open>args\<close>.
\<close>

definition argsName :: "string \<Rightarrow> bool" where
  "argsName n =
     (let l = toLowerCase n in
        (startsWith l ''query'' \<and> endsWith l ''args'' \<and> 9 \<le> length l)
        \<or> (startsWith l ''mutation'' \<and> endsWith l ''args'' \<and> 12 \<le> length l))"

text \<open>Object and input types, for the examples.\<close>

definition emptyObject :: "string \<Rightarrow> definitionNode" where
  "emptyObject n = \<lparr>kind = ObjectTypeDefinition, name = n, fields' = []\<rparr>"

definition objectType :: "string \<Rightarrow> field list \<Rightarrow> definitionNode" where
  "objectType n fs = \<lparr>kind = ObjectTypeDefinition, name = n, fields' = fs\<rparr>"

definition inputType :: "string \<Rightarrow> field list \<Rightarrow> definitionNode" where
  "inputType n fs = \<lparr>kind = InputObjectTypeDefinition, name = n, fields' = fs\<rparr>"

section \<open>Every failure is a TypeError, up to the emptiness check\<close>

lemma generateType_error: "generateType t = Inl e \<Longrightarrow> e = TypeError"
  by (induction t rule: generateType.induct) (auto split: if_splits option.splits sum.splits)

lemma mapE_error: "mapE f xs = Inl e \<Longrightarrow> \<exists>x\<in>set xs. f x = Inl e"
  by (induction xs arbitrary: e) (auto split: sum.splits)

lemma generateMember_error: "generateMember m = Inl e \<Longrightarrow> e = TypeError"
  by (induction m rule: generateMember.induct) (auto split: sum.splits dest: generateType_error)

lemma keyName_error: "keyName m = Inl e \<Longrightarrow> e = TypeError"
  by (induction m rule: keyName.induct) auto

lemma enumMember_error: "enumMember upper x = Inl e \<Longrightarrow> e = TypeError"
  by (cases x) auto

lemma generateScalarsDefinition_error: "generateScalarsDefinition t = Inl e \<Longrightarrow> e = TypeError"
  by (induction t rule: generateScalarsDefinition.induct)
     (auto split: if_splits sum.splits dest!: mapE_error keyName_error)

lemma generateArgumentsDefinition_error: "generateArgumentsDefinition t = Inl e \<Longrightarrow> e = TypeError"
  by (induction t rule: generateArgumentsDefinition.induct)
     (auto split: if_splits sum.splits option.splits dest!: mapE_error generateMember_error)

lemma generateTypeScriptDefinition_error: "generateTypeScriptDefinition t = Inl e \<Longrightarrow> e = TypeError"
  by (induction t rule: generateTypeScriptDefinition.induct)
     (auto split: if_splits sum.splits option.splits dest!: mapE_error generateMember_error)

lemma visit_error: "visit upper n st = Inl e \<Longrightarrow> e = TypeError"
  by (cases n)
     (auto split: if_splits sum.splits
        dest!: mapE_error enumMember_error generateArgumentsDefinition_error
               generateScalarsDefinition_error generateTypeScriptDefinition_error)

lemma forEach_error:
  "forEach f xs s = Inl e \<Longrightarrow> \<exists>x\<in>set xs. \<exists>s'. f x s' = Inl e"
  by (induction xs arbitrary: s) (auto split: sum.splits)

lemma traverse_error: "traverse upper nodes = Inl e \<Longrightarrow> e = TypeError"
  unfolding traverse_def by (auto dest!: forEach_error visit_error)

lemma findTarget1_error: "findTarget1 arg ds = Inl e \<Longrightarrow> e = TypeError"
  by (induction ds arbitrary: e) (auto split: if_splits option.splits sum.splits)

lemma changeArgumentType1_error: "changeArgumentType1 arg ds = Inl e \<Longrightarrow> e = TypeError"
  by (auto simp: changeArgumentType1_def split: sum.splits option.splits dest: findTarget1_error)

lemma changeArgumentType2_total: "changeArgumentType2 arg ds \<noteq> Inl e"
  by (auto simp: changeArgumentType2_def split: option.splits)

lemma bindArguments_error:
  assumes "\<And>arg s e. step arg s = Inl e \<Longrightarrow> e = TypeError"
  shows "bindArguments step opName ds = Inl e \<Longrightarrow> e = TypeError"
  unfolding bindArguments_def bindField_def
  by (auto split: option.splits dest!: forEach_error dest: assms)

lemma prune1_error: "prune1 ds = Inl e \<Longrightarrow> e = TypeError"
  by (auto simp: prune1_def split: if_splits)

lemma prune2_error: "prune2 ds = Inl e \<Longrightarrow> e = TypeError"
  by (auto simp: prune2_def split: if_splits)

lemma bindMutation1_error:
  "bindArguments changeArgumentType1 opName ds = Inl e \<Longrightarrow> e = TypeError"
  by (erule bindArguments_error[rotated]) (rule changeArgumentType1_error)

lemma bindQuery1_total: "bindArguments keepArgumentType opName ds = Inl e \<Longrightarrow> e = TypeError"
  by (erule bindArguments_error[rotated]) (simp add: keepArgumentType_def)

lemma bind2_error: "bindArguments changeArgumentType2 opName ds = Inl e \<Longrightarrow> e = TypeError"
  by (erule bindArguments_error[rotated]) (simp add: changeArgumentType2_total)

lemma rewrite1_error: "rewrite1 ds = Inl e \<Longrightarrow> e = TypeError"
  unfolding rewrite1_def
  by (auto split: sum.splits dest: prune1_error bindMutation1_error bindQuery1_total)

lemma rewrite2_error: "rewrite2 ds = Inl e \<Longrightarrow> e = TypeError"
  unfolding rewrite2_def
  by (auto split: sum.splits dest: prune2_error bind2_error)

section \<open>The regular expressions of the prune step\<close>

lemma startsWith_iff: "startsWith s p \<longleftrightarrow> (\<exists>c. s = p @ c)"
  unfolding startsWith_def
  by (metis append_eq_conv_conj append_take_drop_id)

lemma dotStarThen_iff:
  "dotStarThen suf s \<longleftrightarrow> (\<exists>b c. s = b @ suf @ c \<and> (\<forall>ch\<in>set b. \<not> lineTerminator ch))"
proof (induction s)
  case Nil
  show ?case by (simp add: startsWith_iff)
next
  case (Cons x xs)
  show ?case
  proof
    assume "dotStarThen suf (x # xs)"
    then consider "startsWith (x # xs) suf" | "\<not> lineTerminator x" "dotStarThen suf xs"
      by auto
    then show "\<exists>b c. x # xs = b @ suf @ c \<and> (\<forall>ch\<in>set b. \<not> lineTerminator ch)"
    proof cases
      case 1
      then obtain c where "x # xs = suf @ c" by (auto simp: startsWith_iff)
      then have "x # xs = [] @ suf @ c \<and> (\<forall>ch\<in>set []. \<not> lineTerminator ch)" by simp
      then show ?thesis by blast
    next
      case 2
      with Cons.IH obtain b c where "xs = b @ suf @ c" "\<forall>ch\<in>set b. \<not> lineTerminator ch"
        by blast
      with 2 have "x # xs = (x # b) @ suf @ c \<and> (\<forall>ch\<in>set (x # b). \<not> lineTerminator ch)"
        by simp
      then show ?thesis by blast
    qed
  next
    assume "\<exists>b c. x # xs = b @ suf @ c \<and> (\<forall>ch\<in>set b. \<not> lineTerminator ch)"
    then obtain b c where bc: "x # xs = b @ suf @ c" "\<forall>ch\<in>set b. \<not> lineTerminator ch"
      by blast
    show "dotStarThen suf (x # xs)"
    proof (cases b)
      case Nil
      with bc have "startsWith (x # xs) suf" by (auto simp: startsWith_iff)
      then show ?thesis by simp
    next
      case (Cons y ys)
      with bc have "y = x" "xs = ys @ suf @ c" "\<not> lineTerminator x" "\<forall>ch\<in>set ys. \<not> lineTerminator ch"
        by auto
      with Cons.IH have "dotStarThen suf xs" by blast
      with \<open>\<not> lineTerminator x\<close> show ?thesis by simp
    qed
  qed
qed

lemma matchAt_iff:
  "startsWith s pre \<and> dotStarThen suf (drop (length pre) s)
     \<longleftrightarrow> (\<exists>b c. s = pre @ b @ suf @ c \<and> (\<forall>ch\<in>set b. \<not> lineTerminator ch))"
proof
  assume "startsWith s pre \<and> dotStarThen suf (drop (length pre) s)"
  then obtain r where r: "s = pre @ r" "dotStarThen suf (drop (length pre) s)"
    by (auto simp: startsWith_iff)
  then have "dotStarThen suf r" by simp
  then obtain b c where "r = b @ suf @ c" "\<forall>ch\<in>set b. \<not> lineTerminator ch"
    unfolding dotStarThen_iff by blast
  with r(1) show "\<exists>b c. s = pre @ b @ suf @ c \<and> (\<forall>ch\<in>set b. \<not> lineTerminator ch)"
    by blast
next
  assume "\<exists>b c. s = pre @ b @ suf @ c \<and> (\<forall>ch\<in>set b. \<not> lineTerminator ch)"
  then obtain b c where bc: "s = pre @ b @ suf @ c" "\<forall>ch\<in>set b. \<not> lineTerminator ch"
    by blast
  then have "dotStarThen suf (b @ suf @ c)"
    unfolding dotStarThen_iff by blast
  with bc(1) show "startsWith s pre \<and> dotStarThen suf (drop (length pre) s)"
    by (simp add: startsWith_iff)
qed

lemma regexTest_iff:
  "regexTest pre suf s
     \<longleftrightarrow> (\<exists>a b c. s = a @ pre @ b @ suf @ c \<and> (\<forall>ch\<in>set b. \<not> lineTerminator ch))"
proof (induction s)
  case Nil
  have "regexTest pre suf [] \<longleftrightarrow> (startsWith [] pre \<and> dotStarThen suf (drop (length pre) []))"
    by simp
  also have "\<dots> \<longleftrightarrow> (\<exists>b c. [] = pre @ b @ suf @ c \<and> (\<forall>ch\<in>set b. \<not> lineTerminator ch))"
    by (rule matchAt_iff)
  also have "\<dots> \<longleftrightarrow> (\<exists>a b c. [] = a @ pre @ b @ suf @ c \<and> (\<forall>ch\<in>set b. \<not> lineTerminator ch))"
    by auto
  finally show ?case .
next
  case (Cons x xs)
  have here: "(startsWith (x # xs) pre \<and> dotStarThen suf (drop (length pre) (x # xs)))
     \<longleftrightarrow> (\<exists>b c. x # xs = pre @ b @ suf @ c \<and> (\<forall>ch\<in>set b. \<not> lineTerminator ch))"
    by (rule matchAt_iff)
  show ?case
  proof
    assume "regexTest pre suf (x # xs)"
    then consider "\<exists>b c. x # xs = pre @ b @ suf @ c \<and> (\<forall>ch\<in>set b. \<not> lineTerminator ch)"
      | "regexTest pre suf xs"
      using here by auto
    then show "\<exists>a b c. x # xs = a @ pre @ b @ suf @ c \<and> (\<forall>ch\<in>set b. \<not> lineTerminator ch)"
    proof cases
      case 1
      then obtain b c where "x # xs = [] @ pre @ b @ suf @ c" "\<forall>ch\<in>set b. \<not> lineTerminator ch"
        by auto
      then show ?thesis by blast
    next
      case 2
      with Cons.IH obtain a b c where "xs = a @ pre @ b @ suf @ c" "\<forall>ch\<in>set b. \<not> lineTerminator ch"
        by blast
      then have "x # xs = (x # a) @ pre @ b @ suf @ c" by simp
      with \<open>\<forall>ch\<in>set b. \<not> lineTerminator ch\<close> show ?thesis by blast
    qed
  next
    assume "\<exists>a b c. x # xs = a @ pre @ b @ suf @ c \<and> (\<forall>ch\<in>set b. \<not> lineTerminator ch)"
    then obtain a b c where abc: "x # xs = a @ pre @ b @ suf @ c" "\<forall>ch\<in>set b. \<not> lineTerminator ch"
      by blast
    show "regexTest pre suf (x # xs)"
    proof (cases a)
      case Nil
      with abc have "\<exists>b c. x # xs = pre @ b @ suf @ c \<and> (\<forall>ch\<in>set b. \<not> lineTerminator ch)"
        by auto
      with here show ?thesis by simp
    next
      case (Cons y ys)
      with abc have "xs = ys @ pre @ b @ suf @ c" by simp
      with abc(2) Cons.IH have "regexTest pre suf xs" by blast
      then show ?thesis by simp
    qed
  qed
qed

section \<open>Type Mapper\<close>

text \<open>
  Claim C5 (\<^verbatim>\<open>generateType\<close> is total and always returns a string).  The code does not:
  a \<^verbatim>\<open>Maybe\<close> or \<^verbatim>\<open>Array\<close> reference without a type-argument list reads \<^verbatim>\<open>.params\<close> of
  \<^verbatim>\<open>undefined\<close> and throws (the \<^verbatim>\<open>Scalars\<close> branch guards the same read); an indexed access
  whose object type is not a type reference, such as \<^verbatim>\<open>Scalars['ID']['output']\<close>, reads \<^verbatim>\<open>.name\<close>
  of \<^verbatim>\<open>undefined\<close> and throws; an indexed access into another reference returns the
  \<^verbatim>\<open>typeName\<close> node, not a string.
\<close>

theorem generateType_throws:
  "generateType (TSTypeReference (Identifier ''Maybe'') None) = Inl TypeError
   \<and> generateType (TSTypeReference (Identifier ''Array'') None) = Inl TypeError
   \<and> generateType
        (TSIndexedAccessType
           (TSIndexedAccessType (TSTypeReference (Identifier ''Scalars'') None)
              (TSLiteralType (StringLiteral ''ID'')))
           (TSLiteralType (StringLiteral ''output''))) = Inl TypeError
   \<and> generateType
        (TSIndexedAccessType (TSTypeReference (Identifier ''Foo'') None)
           (TSLiteralType (StringLiteral ''bar''))) = Inr (Node (Identifier ''Foo''))"
  by simp

text \<open>
  Claim C6: the concrete equations of \<^verbatim>\<open>generateType\<close>: the four keywords, \<^verbatim>\<open>Maybe<Array<number>>\<close>,
  \<^verbatim>\<open>Array<Maybe<string>>\<close>, \<^verbatim>\<open>Scalars["DateTime"]\<close> (as an indexed access and as a type
  argument), and a \<^verbatim>\<open>Scalars\<close> reference with no type arguments.
\<close>

theorem generateType_equations:
  "generateType TSStringKeyword = Inr (Str ''String'')
   \<and> generateType TSNumberKeyword = Inr (Str ''Int'')
   \<and> generateType TSBooleanKeyword = Inr (Str ''Boolean'')
   \<and> generateType TSAnyKeyword = Inr (Str ''String'')
   \<and> generateType
        (TSTypeReference (Identifier ''Maybe'')
           (Some [TSTypeReference (Identifier ''Array'') (Some [TSNumberKeyword])]))
       = Inr (Str ''[Int]'')
   \<and> generateType
        (TSTypeReference (Identifier ''Array'')
           (Some [TSTypeReference (Identifier ''Maybe'') (Some [TSStringKeyword])]))
       = Inr (Str ''[String]'')
   \<and> generateType
        (TSIndexedAccessType (TSTypeReference (Identifier ''Scalars'') None)
           (TSLiteralType (StringLiteral ''DateTime''))) = Inr (Str ''DateTime'')
   \<and> generateType
        (TSTypeReference (Identifier ''Scalars'') (Some [TSLiteralType (StringLiteral ''DateTime'')]))
       = Inr (Str ''DateTime'')
   \<and> generateType (TSTypeReference (Identifier ''Scalars'') None) = Inr (Str ''Unknown'')
   \<and> generateType (TSTypeReference (Identifier ''Scalars'') (Some [])) = Inr (Str ''Unknown'')"
  by simp

text \<open>
  Claim C7 says that a non-empty object-literal shape maps to \<^verbatim>\<open>Unknown\<close>.  The case
  \<^verbatim>\<open>TSTypeLiteral\<close> shares the \<^verbatim>\<open>return 'String'\<close> of the string keyword whatever its members:
  the literal \<^verbatim>\<open>{ street: string }\<close> does not map to \<^verbatim>\<open>Unknown\<close>.
\<close>

theorem generateType_nonempty_literal_counterexample:
  "generateType
     (TSTypeLiteral [Member TSPropertySignature (Some (Identifier ''street'')) (Some TSStringKeyword) False])
     \<noteq> Inr (Str ''Unknown'')"
  by simp

text \<open>
  Claim C7, amended: \<^verbatim>\<open>generateType\<close> returns \<^verbatim>\<open>String\<close> for the string keyword and for every
  object-literal shape, empty or not, and \<^verbatim>\<open>Unknown\<close> for the shapes no case names (the null
  keyword, literal, intersection, union and array types).
\<close>

theorem generateType_String_Unknown:
  "generateType TSStringKeyword = Inr (Str ''String'')
   \<and> generateType (TSTypeLiteral []) = Inr (Str ''String'')
   \<and> generateType (TSTypeLiteral ms) = Inr (Str ''String'')
   \<and> generateType TSNullKeyword = Inr (Str ''Unknown'')
   \<and> generateType (TSLiteralType l) = Inr (Str ''Unknown'')
   \<and> generateType (TSIntersectionType ts) = Inr (Str ''Unknown'')
   \<and> generateType (TSUnionType ts) = Inr (Str ''Unknown'')
   \<and> generateType (TSArrayType t) = Inr (Str ''Unknown'')"
  by simp

section \<open>Member Lowerer\<close>

text \<open>
  Claim C8 says that every member with a name and a type lowers to the field line.
  \<^verbatim>\<open>generateMember\<close> tests \<^verbatim>\<open>member.type === 'TSPropertySignature'\<close> first: the method signature
  \<^verbatim>\<open>m(): string\<close>, which has a key and a type annotation, lowers to the empty string, not
  to \<^verbatim>\<open>  m: String!\<close>.
\<close>

theorem generateMember_method_signature_counterexample:
  "generateMember (Member TSMethodSignature (Some (Identifier ''m'')) (Some TSStringKeyword) False)
     = Inr []
   \<and> generateType TSStringKeyword = Inr (Str ''String'')
   \<and> generateMember (Member TSMethodSignature (Some (Identifier ''m'')) (Some TSStringKeyword) False)
     \<noteq> Inr (''  '' @ ''m'' @ '': '' @ ''String'' @ ''!'')"
  by simp

text \<open>
  Claim C8, amended: for a property signature with an identifier key \<open>k\<close> and a type that
  \<^verbatim>\<open>generateType\<close> maps to \<open>ty\<close>, \<^verbatim>\<open>generateMember\<close> returns two spaces, \<open>k\<close>, a colon and a
  space, the mapped type, then \<^verbatim>\<open>!\<close> exactly when the member is not optional.  A member
  that is not a property signature, or has no key, or has no type annotation, lowers to
  the empty string.
\<close>

theorem generateMember_format:
  "(generateType t = Inr ty \<longrightarrow>
      generateMember (Member TSPropertySignature (Some (Identifier k)) (Some t) opt)
        = Inr (''  '' @ k @ '': '' @ toString ty @ (if opt then [] else ''!'')))
   \<and> (mt \<noteq> TSPropertySignature \<longrightarrow> generateMember (Member mt ko ta opt) = Inr [])
   \<and> generateMember (Member mt None ta opt) = Inr []
   \<and> generateMember (Member mt ko None opt) = Inr []"
  by (cases mt; cases ko; cases ta) simp_all

theorem generateMember_format_witness:
  "generateMember (Member TSPropertySignature (Some (Identifier ''id'')) (Some TSStringKeyword) False)
     = Inr ''  id: String!''
   \<and> generateMember (Member TSPropertySignature (Some (Identifier ''id'')) (Some TSStringKeyword) True)
     = Inr ''  id: String''
   \<and> generateMember (Member TSMethodSignature (Some (Identifier ''m'')) (Some TSStringKeyword) False)
     = Inr []"
  using generateMember_format [where t = TSStringKeyword and ty = "Str ''String''" and k = "''id''"
      and opt = False and mt = TSMethodSignature and ko = "Some (Identifier ''m'')"
      and ta = "Some TSStringKeyword"]
    generateMember_format [where t = TSStringKeyword and ty = "Str ''String''" and k = "''id''"
      and opt = True and mt = TSMethodSignature and ko = None and ta = None]
  by simp

section \<open>Declaration Lowerer: the visitor of type aliases\<close>

text \<open>
  Claim C3 says that an alias named \<^verbatim>\<open>Query<Op>Args\<close> emits no fragment and is recorded in the
  table.  On \<^verbatim>\<open>type QueryFooArgs = { id: string }\<close> the visitor appends the fragment
  \<^verbatim>\<open>type QueryFooArgs {...}\<close> to the text and leaves the table without an entry for the name.
\<close>

theorem visit_alias_QueryArgs_counterexample:
  "(case visit toUpperCaseASCII (TSTypeAliasDeclaration ''QueryFooArgs''
                 (TSTypeLiteral [Member TSPropertySignature (Some (Identifier ''id'')) (Some TSStringKeyword) False]))
          \<lparr>typeDefs = [], mutationArgs = Map.empty\<rparr> of
      Inl e \<Rightarrow> False
    | Inr st \<Rightarrow> typeDefs st = ''type QueryFooArgs {'' @ newline @ ''  id: String!'' @ newline @ ''}'' @ newline
               \<and> typeDefs st \<noteq> [] \<and> mutationArgs st ''QueryFooArgs'' = None)"
  by (simp add: startsWith_def endsWith_def newline_def)

lemma startsWith_Mutation_not_Scalars: "startsWith idName ''Mutation'' \<Longrightarrow> idName \<noteq> ''Scalars''"
  by (auto simp: startsWith_def)

text \<open>
  Claim C3, amended: for an alias with an object-literal shape of at least one member, whose
  members lower to the lines \<open>ls\<close>.  If its name starts with \<^verbatim>\<open>Mutation\<close> and ends with \<^verbatim>\<open>Args\<close>,
  the visitor records \<^verbatim>\<open>(\<close> + the lines joined by \<^verbatim>\<open>, \<close> + \<^verbatim>\<open>)\<close> in the table under the name, and
  also appends the fragment \<^verbatim>\<open>type <Name> {...}\<close> to the text.  If its name does not start with
  \<^verbatim>\<open>Mutation\<close> (a \<^verbatim>\<open>Query<Op>Args\<close> name among them) and is not \<^verbatim>\<open>Scalars\<close>, the visitor only
  appends the fragment: the table is unchanged.
\<close>

theorem visit_alias_table_and_fragment:
  "mapE generateMember ms = Inr ls \<longrightarrow> ms \<noteq> [] \<longrightarrow>
     (startsWith idName ''Mutation'' \<and> endsWith idName ''Args'' \<longrightarrow>
        visit upper (TSTypeAliasDeclaration idName (TSTypeLiteral ms)) st
          = Inr (st\<lparr>typeDefs := typeDefs st @ ''type '' @ idName @ '' ''
                               @ (''{'' @ newline @ join newline ls @ newline @ ''}'') @ newline,
                     mutationArgs := (mutationArgs st)(idName \<mapsto> ''('' @ join '', '' ls @ '')'')\<rparr>))
     \<and> (\<not> startsWith idName ''Mutation'' \<and> idName \<noteq> ''Scalars'' \<longrightarrow>
        visit upper (TSTypeAliasDeclaration idName (TSTypeLiteral ms)) st
          = Inr (st\<lparr>typeDefs := typeDefs st @ ''type '' @ idName @ '' ''
                               @ (''{'' @ newline @ join newline ls @ newline @ ''}'') @ newline\<rparr>))"
  by (auto dest: startsWith_Mutation_not_Scalars)

theorem visit_alias_table_and_fragment_witness:
  "visit toUpperCaseASCII (TSTypeAliasDeclaration ''MutationFooArgs''
            (TSTypeLiteral [Member TSPropertySignature (Some (Identifier ''id'')) (Some TSStringKeyword) False,
                            Member TSPropertySignature (Some (Identifier ''n'')) (Some TSNumberKeyword) True]))
          \<lparr>typeDefs = [], mutationArgs = Map.empty\<rparr>
     = Inr \<lparr>typeDefs = ''type MutationFooArgs {'' @ newline @ ''  id: String!'' @ newline @ ''  n: Int'' @ newline @ ''}'' @ newline,
            mutationArgs = [''MutationFooArgs'' \<mapsto> ''(  id: String!,   n: Int)'']\<rparr>
   \<and> visit toUpperCaseASCII (TSTypeAliasDeclaration ''QueryFooArgs''
            (TSTypeLiteral [Member TSPropertySignature (Some (Identifier ''id'')) (Some TSStringKeyword) False,
                            Member TSPropertySignature (Some (Identifier ''n'')) (Some TSNumberKeyword) True]))
          \<lparr>typeDefs = [], mutationArgs = Map.empty\<rparr>
     = Inr \<lparr>typeDefs = ''type QueryFooArgs {'' @ newline @ ''  id: String!'' @ newline @ ''  n: Int'' @ newline @ ''}'' @ newline,
            mutationArgs = Map.empty\<rparr>"
  using visit_alias_table_and_fragment
    [where ms = "[Member TSPropertySignature (Some (Identifier ''id'')) (Some TSStringKeyword) False,
          Member TSPropertySignature (Some (Identifier ''n'')) (Some TSNumberKeyword) True]"
      and ls = "[''  id: String!'', ''  n: Int'']" and idName = "''MutationFooArgs''"
      and upper = toUpperCaseASCII
      and st = "\<lparr>typeDefs = [], mutationArgs = Map.empty\<rparr>"]
    visit_alias_table_and_fragment
    [where ms = "[Member TSPropertySignature (Some (Identifier ''id'')) (Some TSStringKeyword) False,
          Member TSPropertySignature (Some (Identifier ''n'')) (Some TSNumberKeyword) True]"
      and ls = "[''  id: String!'', ''  n: Int'']" and idName = "''QueryFooArgs''"
      and upper = toUpperCaseASCII
      and st = "\<lparr>typeDefs = [], mutationArgs = Map.empty\<rparr>"]
  by (simp add: startsWith_def endsWith_def)

section \<open>The run and the emptiness check\<close>

lemma run_NoDefinitionsFound:
  assumes "\<And>ds e. rewrite ds = Inl e \<Longrightarrow> e = TypeError"
  shows "run rewrite upper parse nodes = Inl NoDefinitionsFound
           \<longleftrightarrow> (\<exists>st. traverse upper nodes = Inr st \<and> typeDefs st = [])"
  unfolding run_def
  by (auto split: sum.splits option.splits dest: traverse_error assms)

text \<open>
  Claim C9: the run ends with \<open>NoDefinitionsFound\<close> exactly when the traversal has returned
  an empty text; the result is then \<open>Inl\<close>: the handler logs and nothing is handed to the
  printer.  A non-empty text is handed to the schema parser and what it returns to the
  rewrite, whose result is the result of the run.  Both copies.
\<close>

theorem run_NoDefinitionsFound_iff:
  "(main1 upper parse nodes = Inl NoDefinitionsFound \<longleftrightarrow> (\<exists>st. traverse upper nodes = Inr st \<and> typeDefs st = []))
   \<and> (main2 upper parse nodes = Inl NoDefinitionsFound \<longleftrightarrow> (\<exists>st. traverse upper nodes = Inr st \<and> typeDefs st = []))
   \<and> (\<forall>st. traverse upper nodes = Inr st \<and> typeDefs st \<noteq> [] \<longrightarrow>
         main1 upper parse nodes
           = (case parse (typeDefs st) of None \<Rightarrow> Inl GraphQLSyntaxError | Some ds \<Rightarrow> rewrite1 ds)
         \<and> main2 upper parse nodes
           = (case parse (typeDefs st) of None \<Rightarrow> Inl GraphQLSyntaxError | Some ds \<Rightarrow> rewrite2 ds))"
proof -
  have 1: "main1 upper parse nodes = Inl NoDefinitionsFound \<longleftrightarrow> (\<exists>st. traverse upper nodes = Inr st \<and> typeDefs st = [])"
    unfolding main1_def by (rule run_NoDefinitionsFound) (rule rewrite1_error)
  have 2: "main2 upper parse nodes = Inl NoDefinitionsFound \<longleftrightarrow> (\<exists>st. traverse upper nodes = Inr st \<and> typeDefs st = [])"
    unfolding main2_def by (rule run_NoDefinitionsFound) (rule rewrite2_error)
  have 3: "\<forall>st. traverse upper nodes = Inr st \<and> typeDefs st \<noteq> [] \<longrightarrow>
         main1 upper parse nodes
           = (case parse (typeDefs st) of None \<Rightarrow> Inl GraphQLSyntaxError | Some ds \<Rightarrow> rewrite1 ds)
         \<and> main2 upper parse nodes
           = (case parse (typeDefs st) of None \<Rightarrow> Inl GraphQLSyntaxError | Some ds \<Rightarrow> rewrite2 ds)"
    by (simp add: main1_def main2_def run_def)
  from 1 2 3 show ?thesis by blast
qed

theorem run_NoDefinitionsFound_iff_witness:
  "main1 toUpperCaseASCII (\<lambda>s. Some []) [] = Inl NoDefinitionsFound
   \<and> main2 toUpperCaseASCII (\<lambda>s. Some []) [OtherNode] = Inl NoDefinitionsFound
   \<and> main1 toUpperCaseASCII (\<lambda>s. Some [])
        [TSEnumDeclaration ''Role'' [Identifier ''admin'', Identifier ''user'']] = Inr []
   \<and> main2 toUpperCaseASCII (\<lambda>s. None)
        [TSEnumDeclaration ''Role'' [Identifier ''admin'', Identifier ''user'']]
       = Inl GraphQLSyntaxError"
proof -
  have t0: "traverse toUpperCaseASCII [] = Inr \<lparr>typeDefs = [], mutationArgs = Map.empty\<rparr>"
    by (simp add: traverse_def)
  have t1: "traverse toUpperCaseASCII [OtherNode] = Inr \<lparr>typeDefs = [], mutationArgs = Map.empty\<rparr>"
    by (simp add: traverse_def)
  have t2: "traverse toUpperCaseASCII
        [TSEnumDeclaration ''Role'' [Identifier ''admin'', Identifier ''user'']]
      = Inr \<lparr>typeDefs = ''enum Role {'' @ newline @ ''ADMIN, USER'' @ newline @ ''}'' @ newline,
             mutationArgs = Map.empty\<rparr>"
    by (simp add: traverse_def toUpperCaseASCII_def toUpperChar_def upperLetters_def lowerLetters_def)
  have r: "rewrite1 [] = Inr []"
    by (simp add: rewrite1_def reposition_def bindArguments_def prune1_def)
  show ?thesis
    using run_NoDefinitionsFound_iff [of toUpperCaseASCII "\<lambda>s. Some []" "[]"]
      run_NoDefinitionsFound_iff [of toUpperCaseASCII "\<lambda>s. Some []" "[OtherNode]"]
      run_NoDefinitionsFound_iff [of toUpperCaseASCII "\<lambda>s. Some []"
        "[TSEnumDeclaration ''Role'' [Identifier ''admin'', Identifier ''user'']]"]
      run_NoDefinitionsFound_iff [of toUpperCaseASCII "\<lambda>s. None"
        "[TSEnumDeclaration ''Role'' [Identifier ''admin'', Identifier ''user'']]"]
      t0 t1 t2 r
    by simp
qed

section \<open>Invariants of the rewrite\<close>

subsection \<open>findIndex\<close>

lemma findIndex_Some:
  "findIndex P xs = Some i \<Longrightarrow> i < length xs \<and> P (xs ! i) \<and> (\<forall>k<i. \<not> P (xs ! k))"
proof (induction xs arbitrary: i)
  case Nil
  then show ?case by simp
next
  case (Cons x xs)
  show ?case
  proof (cases "P x")
    case True
    with Cons.prems show ?thesis by simp
  next
    case False
    with Cons.prems obtain i' where i': "findIndex P xs = Some i'" "i = Suc i'"
      by auto
    from Cons.IH[OF i'(1)] have "i' < length xs" "P (xs ! i')" "\<forall>k<i'. \<not> P (xs ! k)"
      by auto
    with False i'(2) show ?thesis
      by (auto simp: nth_Cons split: nat.splits)
  qed
qed

lemma findIndex_None: "findIndex P xs = None \<longleftrightarrow> (\<forall>x\<in>set xs. \<not> P x)"
  by (induction xs) auto

lemma findIndex_least:
  "k < length xs \<Longrightarrow> P (xs ! k) \<Longrightarrow> \<exists>i\<le>k. findIndex P xs = Some i"
proof (induction xs arbitrary: k)
  case Nil
  then show ?case by simp
next
  case (Cons x xs)
  show ?case
  proof (cases "P x")
    case True
    then show ?thesis by simp
  next
    case False
    with Cons.prems obtain k' where k': "k = Suc k'" "k' < length xs" "P (xs ! k')"
      by (cases k) auto
    from Cons.IH[OF k'(2,3)] obtain i where "i \<le> k'" "findIndex P xs = Some i" by blast
    with False k'(1) show ?thesis by auto
  qed
qed

lemma findIndex_find: "findIndex P xs = Some i \<Longrightarrow> find P xs = Some (xs ! i)"
  by (induction xs arbitrary: i) (auto split: if_splits)

lemma findIndex_cong:
  "length ys = length xs \<Longrightarrow> (\<And>k. k < length xs \<Longrightarrow> P (xs ! k) = Q (ys ! k))
     \<Longrightarrow> findIndex P xs = findIndex Q ys"
proof (induction xs arbitrary: ys)
  case Nil
  then show ?case by simp
next
  case (Cons x xs)
  then obtain y ys' where ys: "ys = y # ys'" by (cases ys) auto
  with Cons.prems have "P x = Q y" by force
  moreover have "findIndex P xs = findIndex Q ys'"
  proof (rule Cons.IH)
    show "length ys' = length xs" using Cons.prems(1) ys by simp
    fix k assume "k < length xs"
    then show "P (xs ! k) = Q (ys' ! k)" using Cons.prems(2)[of "Suc k"] ys by simp
  qed
  ultimately show ?case using ys by simp
qed

subsection \<open>forEach\<close>

lemma forEach_append:
  "forEach f (xs @ ys) s = (case forEach f xs s of Inl e \<Rightarrow> Inl e | Inr s' \<Rightarrow> forEach f ys s')"
  by (induction xs arbitrary: s) (auto split: sum.splits)

lemma forEach_invariant:
  assumes "forEach f xs s = Inr s'" and "I s"
    and "\<And>x a b. x \<in> set xs \<Longrightarrow> I a \<Longrightarrow> f x a = Inr b \<Longrightarrow> I b"
  shows "I s'"
  using assms
proof (induction xs arbitrary: s)
  case Nil
  then show ?case by simp
next
  case (Cons x xs)
  from Cons.prems(1) obtain s1 where s1: "f x s = Inr s1" "forEach f xs s1 = Inr s'"
    by (auto split: sum.splits)
  have "I s1" using Cons.prems(3)[of x s s1] Cons.prems(2) s1(1) by simp
  then show ?case using Cons.IH[OF s1(2)] Cons.prems(3) by auto
qed

lemma forEach_total:
  assumes "\<And>x a. x \<in> set xs \<Longrightarrow> \<exists>b. f x a = Inr b"
  shows "\<exists>s'. forEach f xs s = Inr s'"
  using assms
proof (induction xs arbitrary: s)
  case Nil
  then show ?case by simp
next
  case (Cons x xs)
  from Cons.prems[of x s] obtain b where "f x s = Inr b" by auto
  moreover from Cons.IH[of b] Cons.prems obtain s' where "forEach f xs b = Inr s'" by auto
  ultimately show ?case by simp
qed

subsection \<open>evolved\<close>

lemma evolved_refl: "evolved d d"
  by (simp add: evolved_def)

lemma evolved_trans: "evolved a b \<Longrightarrow> evolved b c \<Longrightarrow> evolved a c"
  by (auto simp: evolved_def)

lemma all_evolved_refl: "list_all2 evolved s s"
  by (simp add: list_all2_refl evolved_refl)

lemma all_evolved_trans:
  "list_all2 evolved a b \<Longrightarrow> list_all2 evolved b c \<Longrightarrow> list_all2 evolved a c"
  by (rule list_all2_trans[of evolved evolved evolved]) (auto intro: evolved_trans)

lemma reclassify_evolved:
  "i < length s \<Longrightarrow> kind (s ! i) = ObjectTypeDefinition \<Longrightarrow> list_all2 evolved s (reclassify i s)"
  by (auto simp: reclassify_def list_all2_conv_all_nth nth_list_update evolved_def)

lemma setArguments_evolved:
  "q < length s \<Longrightarrow> name (s ! q) = ''Query'' \<or> name (s ! q) = ''Mutation''
     \<Longrightarrow> list_all2 evolved s (setArguments q j args s)"
  by (auto simp: setArguments_def list_all2_conv_all_nth nth_list_update evolved_def)

lemma findTarget1_Some:
  "findTarget1 arg s = Inr (Some i) \<Longrightarrow> i < length s \<and> kind (s ! i) = ObjectTypeDefinition"
proof (induction s arbitrary: i)
  case Nil
  then show ?case by simp
next
  case (Cons d ds)
  then show ?case
    by (auto split: if_splits option.splits sum.splits simp: nth_Cons split: nat.splits)
qed

lemma changeArgumentType1_evolved:
  "changeArgumentType1 arg s = Inr s' \<Longrightarrow> list_all2 evolved s s'"
  by (auto simp: changeArgumentType1_def all_evolved_refl split: sum.splits option.splits
           dest!: findTarget1_Some intro: reclassify_evolved)

lemma changeArgumentType2_evolved:
  "changeArgumentType2 arg s = Inr s' \<Longrightarrow> list_all2 evolved s s'"
  by (auto simp: changeArgumentType2_def findTarget2_def all_evolved_refl split: option.splits
           dest!: findIndex_Some intro: reclassify_evolved)

lemma keepArgumentType_evolved:
  "keepArgumentType arg s = Inr s' \<Longrightarrow> list_all2 evolved s s'"
  by (auto simp: keepArgumentType_def all_evolved_refl)

lemma forEach_step_evolved:
  assumes step: "\<And>arg a b. step arg a = Inr b \<Longrightarrow> list_all2 evolved a b"
    and run: "forEach step args s = Inr s'"
  shows "list_all2 evolved s s'"
proof (rule forEach_invariant[OF run, where I = "\<lambda>a. list_all2 evolved s a"])
  show "list_all2 evolved s s" by (rule all_evolved_refl)
next
  fix x a b assume "list_all2 evolved s a" "step x a = Inr b"
  then show "list_all2 evolved s b" using step all_evolved_trans by blast
qed

lemma bindField_evolved:
  assumes step: "\<And>arg a b. step arg a = Inr b \<Longrightarrow> list_all2 evolved a b"
    and q: "q < length s" "name (s ! q) = ''Query'' \<or> name (s ! q) = ''Mutation''"
    and run: "bindField step opName q jf s = Inr s'"
  shows "list_all2 evolved s s'"
proof (cases "findIndex (isArgsOf opName (fname (snd jf))) s")
  case None
  with run show ?thesis by (simp add: bindField_def all_evolved_refl)
next
  case (Some a)
  with run have "forEach step (fields' (s ! a)) (setArguments q (fst jf) (fields' (s ! a)) s) = Inr s'"
    by (simp add: bindField_def)
  then have "list_all2 evolved (setArguments q (fst jf) (fields' (s ! a)) s) s'"
    by (rule forEach_step_evolved[rotated]) (erule step)
  with setArguments_evolved[OF q] show ?thesis by (rule all_evolved_trans)
qed

lemma all_evolved_name:
  "list_all2 evolved s s' \<Longrightarrow> i < length s \<Longrightarrow> name (s' ! i) = name (s ! i)"
  by (auto simp: list_all2_conv_all_nth evolved_def)

lemma all_evolved_length: "list_all2 evolved s s' \<Longrightarrow> length s' = length s"
  by (simp add: list_all2_lengthD)

lemma bindFields_evolved:
  assumes step: "\<And>arg a b. step arg a = Inr b \<Longrightarrow> list_all2 evolved a b"
    and q: "q < length s" "name (s ! q) = ''Query'' \<or> name (s ! q) = ''Mutation''"
    and run: "forEach (bindField step opName q) jfs s = Inr s'"
  shows "list_all2 evolved s s'"
proof (rule forEach_invariant[OF run, where I = "\<lambda>a. list_all2 evolved s a"])
  show "list_all2 evolved s s" by (rule all_evolved_refl)
next
  fix x a b assume a: "list_all2 evolved s a" and b: "bindField step opName q x a = Inr b"
  from a q have "q < length a" "name (a ! q) = ''Query'' \<or> name (a ! q) = ''Mutation''"
    by (simp_all add: all_evolved_length all_evolved_name)
  then have "list_all2 evolved a b" using b by (rule bindField_evolved[rotated]) (erule step)
  with a show "list_all2 evolved s b" by (rule all_evolved_trans)
qed

lemma bindArguments_evolved:
  assumes step: "\<And>arg a b. step arg a = Inr b \<Longrightarrow> list_all2 evolved a b"
    and op: "opName = ''Query'' \<or> opName = ''Mutation''"
    and run: "bindArguments step opName s = Inr s'"
  shows "list_all2 evolved s s'"
proof (cases "findIndex (isObjectNamed opName) s")
  case None
  with run show ?thesis by (simp add: bindArguments_def all_evolved_refl)
next
  case (Some q)
  from findIndex_Some[OF Some] op have q: "q < length s" "name (s ! q) = ''Query'' \<or> name (s ! q) = ''Mutation''"
    by (auto simp: isObjectNamed_def)
  from run Some have "forEach (bindField step opName q) (enumerate 0 (fields' (s ! q))) s = Inr s'"
    by (simp add: bindArguments_def)
  with q show ?thesis by (rule bindFields_evolved[rotated]) (erule step)
qed

section \<open>The rewrite as a whole\<close>

lemma all_evolved_names: "list_all2 evolved s s' \<Longrightarrow> map name s' = map name s"
  by (auto simp: list_eq_iff_nth_eq all_evolved_length all_evolved_name)

lemma rewrite1_shape:
  assumes "rewrite1 ds = Inr out"
  shows "\<exists>s2. list_all2 evolved (reposition ds) s2 \<and> \<not> list_ex hasNoName s2
            \<and> out = filter (\<lambda>d. \<not> pruned1 (name d)) s2"
proof -
  from assms obtain s1 s2 where
    s1: "bindArguments changeArgumentType1 ''Mutation'' (reposition ds) = Inr s1" and
    s2: "bindArguments keepArgumentType ''Query'' s1 = Inr s2" and
    out: "prune1 s2 = Inr out"
    by (auto simp: rewrite1_def split: sum.splits)
  have "list_all2 evolved (reposition ds) s1"
    using s1 by (rule bindArguments_evolved[rotated 2]) (auto dest: changeArgumentType1_evolved)
  moreover have "list_all2 evolved s1 s2"
    using s2 by (rule bindArguments_evolved[rotated 2]) (auto dest: keepArgumentType_evolved)
  ultimately have "list_all2 evolved (reposition ds) s2" by (rule all_evolved_trans)
  moreover from out have "\<not> list_ex hasNoName s2" "out = filter (\<lambda>d. \<not> pruned1 (name d)) s2"
    by (auto simp: prune1_def pruned1_def split: if_splits intro: filter_cong)
  ultimately show ?thesis by blast
qed

lemma rewrite2_shape:
  assumes "rewrite2 ds = Inr out"
  shows "\<exists>s2. list_all2 evolved (reposition ds) s2 \<and> \<not> list_ex hasNoName s2
            \<and> out = filter (\<lambda>d. \<not> pruned2 (name d)) s2"
proof -
  from assms obtain s1 s2 where
    s1: "bindArguments changeArgumentType2 ''Query'' (reposition ds) = Inr s1" and
    s2: "bindArguments changeArgumentType2 ''Mutation'' s1 = Inr s2" and
    out: "prune2 s2 = Inr out"
    by (auto simp: rewrite2_def split: sum.splits)
  have "list_all2 evolved (reposition ds) s1"
    using s1 by (rule bindArguments_evolved[rotated 2]) (auto dest: changeArgumentType2_evolved)
  moreover have "list_all2 evolved s1 s2"
    using s2 by (rule bindArguments_evolved[rotated 2]) (auto dest: changeArgumentType2_evolved)
  ultimately have "list_all2 evolved (reposition ds) s2" by (rule all_evolved_trans)
  moreover from out have "\<not> list_ex hasNoName s2" "out = filter (\<lambda>d. \<not> pruned2 (name d)) s2"
    by (auto simp: prune2_def pruned2_def split: if_splits intro: filter_cong)
  ultimately show ?thesis by blast
qed

lemma Query_kept: "\<not> pruned1 ''Query''" "\<not> pruned2 ''Query''"
  by (simp_all add: pruned1_def pruned2_def startsWith_def)

lemma Mutation_kept: "\<not> pruned1 ''Mutation''" "\<not> pruned2 ''Mutation''"
  by (simp_all add: pruned1_def pruned2_def startsWith_def)

lemma names_of_output:
  assumes "list_all2 evolved (reposition ds) s2" and "\<not> P ''Query''"
  shows "map name (filter (\<lambda>d. \<not> P (name d)) s2) =
     (case findIndex (isObjectNamed ''Query'') ds of
        None \<Rightarrow> filter (\<lambda>n. \<not> P n) (map name ds)
      | Some i \<Rightarrow> filter (\<lambda>n. \<not> P n) (map name (take i ds @ drop (Suc i) ds)) @ [''Query''])"
proof -
  have "map name (filter (\<lambda>d. \<not> P (name d)) s2) = filter (\<lambda>n. \<not> P n) (map name s2)"
    by (simp add: filter_map comp_def)
  also have "map name s2 = map name (reposition ds)"
    using assms(1) by (rule all_evolved_names)
  finally have *: "map name (filter (\<lambda>d. \<not> P (name d)) s2)
      = filter (\<lambda>n. \<not> P n) (map name (reposition ds))" .
  show ?thesis
  proof (cases "findIndex (isObjectNamed ''Query'') ds")
    case None
    with * show ?thesis by (simp add: reposition_def)
  next
    case (Some i)
    then have "name (ds ! i) = ''Query''"
      by (auto dest: findIndex_Some simp: isObjectNamed_def)
    with * Some assms(2) show ?thesis by (simp add: reposition_def)
  qed
qed

lemmas rewrite_simps =
  rewrite1_def rewrite2_def reposition_def isObjectNamed_def bindArguments_def bindField_def
  isArgsOf_def toLowerCase_def toLowerChar_def upperLetters_def lowerLetters_def
  setArguments_def changeArgumentType1_def changeArgumentType2_def keepArgumentType_def
  findTarget2_def reclassify_def prune1_def prune2_def hasNoName_def startsWith_def
  lineTerminator_def enumerate_eq_zip emptyObject_def

text \<open>
  Claim C2 says that with both operation types present the output ends with \<^verbatim>\<open>Query\<close> then
  \<^verbatim>\<open>Mutation\<close>.  On the document \<^verbatim>\<open>Mutation, Query, User\<close> both copies return
  \<^verbatim>\<open>Mutation, User, Query\<close>: \<^verbatim>\<open>Mutation\<close> stays first, and the last two definitions are not
  \<^verbatim>\<open>Query, Mutation\<close>.
\<close>

theorem rewrite_Mutation_not_last_counterexample:
  "rewrite1 [emptyObject ''Mutation'', emptyObject ''Query'', emptyObject ''User'']
     = Inr [emptyObject ''Mutation'', emptyObject ''User'', emptyObject ''Query'']
   \<and> rewrite2 [emptyObject ''Mutation'', emptyObject ''Query'', emptyObject ''User'']
     = Inr [emptyObject ''Mutation'', emptyObject ''User'', emptyObject ''Query'']
   \<and> map name (drop 1 [emptyObject ''Mutation'', emptyObject ''User'', emptyObject ''Query''])
     \<noteq> [''Query'', ''Mutation'']"
  by (simp add: rewrite_simps)

text \<open>
  Claim C2, amended: whenever the rewrite returns a document, its names are the names of
  the input in input order without the pruned ones, except that the first object type named
  \<^verbatim>\<open>Query\<close>, if there is one, has moved to the last place.  Nothing else moves: \<^verbatim>\<open>Mutation\<close>
  keeps its place among the other definitions.  Both copies.
\<close>

theorem rewrite_order:
  "(rewrite1 ds = Inr out1 \<longrightarrow>
      map name out1 =
        (case findIndex (isObjectNamed ''Query'') ds of
           None \<Rightarrow> filter (\<lambda>n. \<not> pruned1 n) (map name ds)
         | Some i \<Rightarrow> filter (\<lambda>n. \<not> pruned1 n) (map name (take i ds @ drop (Suc i) ds)) @ [''Query'']))
   \<and> (rewrite2 ds = Inr out2 \<longrightarrow>
      map name out2 =
        (case findIndex (isObjectNamed ''Query'') ds of
           None \<Rightarrow> filter (\<lambda>n. \<not> pruned2 n) (map name ds)
         | Some i \<Rightarrow> filter (\<lambda>n. \<not> pruned2 n) (map name (take i ds @ drop (Suc i) ds)) @ [''Query'']))"
proof (intro conjI impI)
  assume "rewrite1 ds = Inr out1"
  then obtain s2 where "list_all2 evolved (reposition ds) s2"
    "out1 = filter (\<lambda>d. \<not> pruned1 (name d)) s2"
    using rewrite1_shape by blast
  then show "map name out1 =
        (case findIndex (isObjectNamed ''Query'') ds of
           None \<Rightarrow> filter (\<lambda>n. \<not> pruned1 n) (map name ds)
         | Some i \<Rightarrow> filter (\<lambda>n. \<not> pruned1 n) (map name (take i ds @ drop (Suc i) ds)) @ [''Query''])"
    using names_of_output[of ds s2 pruned1] Query_kept(1) by simp
next
  assume "rewrite2 ds = Inr out2"
  then obtain s2 where "list_all2 evolved (reposition ds) s2"
    "out2 = filter (\<lambda>d. \<not> pruned2 (name d)) s2"
    using rewrite2_shape by blast
  then show "map name out2 =
        (case findIndex (isObjectNamed ''Query'') ds of
           None \<Rightarrow> filter (\<lambda>n. \<not> pruned2 n) (map name ds)
         | Some i \<Rightarrow> filter (\<lambda>n. \<not> pruned2 n) (map name (take i ds @ drop (Suc i) ds)) @ [''Query''])"
    using names_of_output[of ds s2 pruned2] Query_kept(2) by simp
qed

theorem rewrite_order_witness:
  "rewrite1 [emptyObject ''Query'', emptyObject ''Mutation'', emptyObject ''Address'']
      = Inr [emptyObject ''Mutation'', emptyObject ''Address'', emptyObject ''Query'']
   \<and> map name [emptyObject ''Mutation'', emptyObject ''Address'', emptyObject ''Query'']
     = [''Mutation'', ''Address'', ''Query'']
   \<and> rewrite2 [emptyObject ''Mutation'', emptyObject ''Address'']
      = Inr [emptyObject ''Mutation'', emptyObject ''Address'']
   \<and> map name [emptyObject ''Mutation'', emptyObject ''Address'']
     = [''Mutation'', ''Address'']"
proof -
  have 1: "rewrite1 [emptyObject ''Query'', emptyObject ''Mutation'', emptyObject ''Address'']
      = Inr [emptyObject ''Mutation'', emptyObject ''Address'', emptyObject ''Query'']"
    by (simp add: rewrite_simps)
  have 2: "rewrite2 [emptyObject ''Mutation'', emptyObject ''Address'']
      = Inr [emptyObject ''Mutation'', emptyObject ''Address'']"
    by (simp add: rewrite_simps)
  show ?thesis
    using rewrite_order[of "[emptyObject ''Query'', emptyObject ''Mutation'', emptyObject ''Address'']"
        "[emptyObject ''Mutation'', emptyObject ''Address'', emptyObject ''Query'']" "[]" ]
      rewrite_order[of "[emptyObject ''Mutation'', emptyObject ''Address'']" "[]"
        "[emptyObject ''Mutation'', emptyObject ''Address'']"]
      1 2
    by (simp add: isObjectNamed_def emptyObject_def pruned1_def pruned2_def startsWith_def)
qed

section \<open>Prune\<close>

lemma prune1_set:
  "prune1 ds = Inr out \<Longrightarrow>
     d \<in> set out \<longleftrightarrow> d \<in> set ds
       \<and> \<not> (\<exists>a b c. name d = a @ ''Mutation'' @ b @ ''Arg'' @ c \<and> (\<forall>ch\<in>set b. \<not> lineTerminator ch))
       \<and> \<not> (\<exists>a b c. name d = a @ ''Query'' @ b @ ''Arg'' @ c \<and> (\<forall>ch\<in>set b. \<not> lineTerminator ch))"
  unfolding regexTest_iff[symmetric]
  by (auto simp: prune1_def split: if_splits)

lemma prune2_set:
  "prune2 ds = Inr out \<Longrightarrow>
     d \<in> set out \<longleftrightarrow> d \<in> set ds
       \<and> \<not> (\<exists>a b c. name d = a @ ''Mutation'' @ b @ ''Args'' @ c \<and> (\<forall>ch\<in>set b. \<not> lineTerminator ch))
       \<and> \<not> (\<exists>a b c. name d = a @ ''Query'' @ b @ ''Args'' @ c \<and> (\<forall>ch\<in>set b. \<not> lineTerminator ch))"
  unfolding regexTest_iff[symmetric]
  by (auto simp: prune2_def split: if_splits)

lemma MutationsArg_not_helper: "''MutationsArg'' \<noteq> ''Mutation'' @ x @ ''Args''"
proof
  assume eq: "''MutationsArg'' = ''Mutation'' @ x @ ''Args''"
  then have "length ''MutationsArg'' = length (''Mutation'' @ x @ ''Args'')" by (rule arg_cong)
  then have "x = []" by simp
  with eq show False by simp
qed

text \<open>
  Claim C10: the prune step of the first copy removes exactly the definitions whose name
  contains \<^verbatim>\<open>Mutation\<close> and later \<^verbatim>\<open>Arg\<close>, or \<^verbatim>\<open>Query\<close> and later \<^verbatim>\<open>Arg\<close>, with no line terminator
  between; that of the second copy the same with \<^verbatim>\<open>Args\<close>.  So the object types
  \<^verbatim>\<open>MutationsArg\<close> and \<^verbatim>\<open>MyQueryExtraArgsType\<close> are deleted from the output of the first copy,
  and \<^verbatim>\<open>MyQueryExtraArgsType\<close> from that of the second, though neither name is \<^verbatim>\<open>Mutation\<close> or
  \<^verbatim>\<open>Query\<close>, then an identifier, then \<^verbatim>\<open>Args\<close>.
\<close>

theorem prune_unanchored:
  "(prune1 ds = Inr out1 \<longrightarrow>
      (\<forall>d. d \<in> set out1 \<longleftrightarrow> d \<in> set ds
         \<and> \<not> (\<exists>a b c. name d = a @ ''Mutation'' @ b @ ''Arg'' @ c \<and> (\<forall>ch\<in>set b. \<not> lineTerminator ch))
         \<and> \<not> (\<exists>a b c. name d = a @ ''Query'' @ b @ ''Arg'' @ c \<and> (\<forall>ch\<in>set b. \<not> lineTerminator ch))))
   \<and> (prune2 ds = Inr out2 \<longrightarrow>
      (\<forall>d. d \<in> set out2 \<longleftrightarrow> d \<in> set ds
         \<and> \<not> (\<exists>a b c. name d = a @ ''Mutation'' @ b @ ''Args'' @ c \<and> (\<forall>ch\<in>set b. \<not> lineTerminator ch))
         \<and> \<not> (\<exists>a b c. name d = a @ ''Query'' @ b @ ''Args'' @ c \<and> (\<forall>ch\<in>set b. \<not> lineTerminator ch))))
   \<and> rewrite1 [emptyObject ''MutationsArg'', emptyObject ''MyQueryExtraArgsType'', emptyObject ''User'']
       = Inr [emptyObject ''User'']
   \<and> rewrite2 [emptyObject ''MutationsArg'', emptyObject ''MyQueryExtraArgsType'', emptyObject ''User'']
       = Inr [emptyObject ''MutationsArg'', emptyObject ''User'']
   \<and> (\<forall>x. ''MutationsArg'' \<noteq> ''Mutation'' @ x @ ''Args'' \<and> ''MutationsArg'' \<noteq> ''Query'' @ x @ ''Args''
          \<and> ''MyQueryExtraArgsType'' \<noteq> ''Mutation'' @ x @ ''Args''
          \<and> ''MyQueryExtraArgsType'' \<noteq> ''Query'' @ x @ ''Args'')"
proof -
  have 1: "rewrite1 [emptyObject ''MutationsArg'', emptyObject ''MyQueryExtraArgsType'', emptyObject ''User'']
       = Inr [emptyObject ''User'']"
    by (simp add: rewrite_simps)
  have 2: "rewrite2 [emptyObject ''MutationsArg'', emptyObject ''MyQueryExtraArgsType'', emptyObject ''User'']
       = Inr [emptyObject ''MutationsArg'', emptyObject ''User'']"
    by (simp add: rewrite_simps)
  have 3: "\<forall>x. ''MutationsArg'' \<noteq> ''Mutation'' @ x @ ''Args'' \<and> ''MutationsArg'' \<noteq> ''Query'' @ x @ ''Args''
          \<and> ''MyQueryExtraArgsType'' \<noteq> ''Mutation'' @ x @ ''Args''
          \<and> ''MyQueryExtraArgsType'' \<noteq> ''Query'' @ x @ ''Args''"
    using MutationsArg_not_helper by simp
  show ?thesis
    using 1 2 3 prune1_set[of ds out1] prune2_set[of ds out2] by blast
qed

theorem prune_unanchored_witness:
  "prune1 [emptyObject ''MutationsArg'', emptyObject ''User''] = Inr [emptyObject ''User'']
   \<and> prune2 [emptyObject ''MyQueryExtraArgsType'', emptyObject ''User''] = Inr [emptyObject ''User'']
   \<and> \<not> (\<exists>a b c. name (emptyObject ''User'') = a @ ''Query'' @ b @ ''Args'' @ c \<and> (\<forall>ch\<in>set b. \<not> lineTerminator ch))
   \<and> \<not> (\<exists>a b c. name (emptyObject ''User'') = a @ ''Mutation'' @ b @ ''Arg'' @ c \<and> (\<forall>ch\<in>set b. \<not> lineTerminator ch))"
proof -
  have 1: "prune1 [emptyObject ''MutationsArg'', emptyObject ''User''] = Inr [emptyObject ''User'']"
    by (simp add: rewrite_simps)
  have 2: "prune2 [emptyObject ''MyQueryExtraArgsType'', emptyObject ''User''] = Inr [emptyObject ''User'']"
    by (simp add: rewrite_simps)
  have "prune1 [emptyObject ''MutationsArg'', emptyObject ''User''] = Inr [emptyObject ''User''] \<longrightarrow>
      (\<forall>d. d \<in> set [emptyObject ''User''] \<longleftrightarrow> d \<in> set [emptyObject ''MutationsArg'', emptyObject ''User'']
         \<and> \<not> (\<exists>a b c. name d = a @ ''Mutation'' @ b @ ''Arg'' @ c \<and> (\<forall>ch\<in>set b. \<not> lineTerminator ch))
         \<and> \<not> (\<exists>a b c. name d = a @ ''Query'' @ b @ ''Arg'' @ c \<and> (\<forall>ch\<in>set b. \<not> lineTerminator ch)))"
    using prune_unanchored[of "[emptyObject ''MutationsArg'', emptyObject ''User'']" "[emptyObject ''User'']" "[]"]
    by (rule conjunct1)
  with 1 have "\<forall>d. d \<in> set [emptyObject ''User''] \<longleftrightarrow> d \<in> set [emptyObject ''MutationsArg'', emptyObject ''User'']
         \<and> \<not> (\<exists>a b c. name d = a @ ''Mutation'' @ b @ ''Arg'' @ c \<and> (\<forall>ch\<in>set b. \<not> lineTerminator ch))
         \<and> \<not> (\<exists>a b c. name d = a @ ''Query'' @ b @ ''Arg'' @ c \<and> (\<forall>ch\<in>set b. \<not> lineTerminator ch))"
    by (rule rev_mp)
  then have "emptyObject ''User'' \<in> set [emptyObject ''User''] \<longleftrightarrow>
         emptyObject ''User'' \<in> set [emptyObject ''MutationsArg'', emptyObject ''User'']
         \<and> \<not> (\<exists>a b c. name (emptyObject ''User'') = a @ ''Mutation'' @ b @ ''Arg'' @ c \<and> (\<forall>ch\<in>set b. \<not> lineTerminator ch))
         \<and> \<not> (\<exists>a b c. name (emptyObject ''User'') = a @ ''Query'' @ b @ ''Arg'' @ c \<and> (\<forall>ch\<in>set b. \<not> lineTerminator ch))"
    by (rule spec)
  then have A: "\<not> (\<exists>a b c. name (emptyObject ''User'') = a @ ''Mutation'' @ b @ ''Arg'' @ c \<and> (\<forall>ch\<in>set b. \<not> lineTerminator ch))"
    by (simp only: list.set_intros(1) simp_thms)
  have "prune2 [emptyObject ''MyQueryExtraArgsType'', emptyObject ''User''] = Inr [emptyObject ''User''] \<longrightarrow>
      (\<forall>d. d \<in> set [emptyObject ''User''] \<longleftrightarrow> d \<in> set [emptyObject ''MyQueryExtraArgsType'', emptyObject ''User'']
         \<and> \<not> (\<exists>a b c. name d = a @ ''Mutation'' @ b @ ''Args'' @ c \<and> (\<forall>ch\<in>set b. \<not> lineTerminator ch))
         \<and> \<not> (\<exists>a b c. name d = a @ ''Query'' @ b @ ''Args'' @ c \<and> (\<forall>ch\<in>set b. \<not> lineTerminator ch)))"
    using prune_unanchored[of "[emptyObject ''MyQueryExtraArgsType'', emptyObject ''User'']" "[]" "[emptyObject ''User'']"]
    by blast
  with 2 have "\<forall>d. d \<in> set [emptyObject ''User''] \<longleftrightarrow> d \<in> set [emptyObject ''MyQueryExtraArgsType'', emptyObject ''User'']
         \<and> \<not> (\<exists>a b c. name d = a @ ''Mutation'' @ b @ ''Args'' @ c \<and> (\<forall>ch\<in>set b. \<not> lineTerminator ch))
         \<and> \<not> (\<exists>a b c. name d = a @ ''Query'' @ b @ ''Args'' @ c \<and> (\<forall>ch\<in>set b. \<not> lineTerminator ch))"
    by (rule rev_mp)
  then have "emptyObject ''User'' \<in> set [emptyObject ''User''] \<longleftrightarrow>
         emptyObject ''User'' \<in> set [emptyObject ''MyQueryExtraArgsType'', emptyObject ''User'']
         \<and> \<not> (\<exists>a b c. name (emptyObject ''User'') = a @ ''Mutation'' @ b @ ''Args'' @ c \<and> (\<forall>ch\<in>set b. \<not> lineTerminator ch))
         \<and> \<not> (\<exists>a b c. name (emptyObject ''User'') = a @ ''Query'' @ b @ ''Args'' @ c \<and> (\<forall>ch\<in>set b. \<not> lineTerminator ch))"
    by (rule spec)
  then have B: "\<not> (\<exists>a b c. name (emptyObject ''User'') = a @ ''Query'' @ b @ ''Args'' @ c \<and> (\<forall>ch\<in>set b. \<not> lineTerminator ch))"
    by (simp only: list.set_intros(1) simp_thms)
  from 1 2 A B show ?thesis by blast
qed

section \<open>Running the rewrite on its own output\<close>

subsection \<open>Reposition\<close>

lemma set_reposition: "set (reposition ds) = set ds"
proof (cases "findIndex (isObjectNamed ''Query'') ds")
  case None
  then show ?thesis by (simp add: reposition_def)
next
  case (Some i)
  then have "i < length ds" by (auto dest: findIndex_Some)
  then have "take i ds @ ds ! i # drop (Suc i) ds = ds" by (rule id_take_nth_drop[symmetric])
  then have "set (take i ds @ ds ! i # drop (Suc i) ds) = set ds" by (rule arg_cong)
  then have "set (take i ds) \<union> {ds ! i} \<union> set (drop (Suc i) ds) = set ds" by auto
  moreover have "set (reposition ds) = set (take i ds) \<union> {ds ! i} \<union> set (drop (Suc i) ds)"
    using Some by (auto simp: reposition_def)
  ultimately show ?thesis by simp
qed

lemma reposition_only_last:
  assumes "length (filter (isObjectNamed ''Query'') ds) \<le> 1"
  shows "\<forall>x\<in>set (butlast (reposition ds)). \<not> isObjectNamed ''Query'' x"
proof (cases "findIndex (isObjectNamed ''Query'') ds")
  case None
  then have "\<forall>x\<in>set ds. \<not> isObjectNamed ''Query'' x" by (simp add: findIndex_None)
  with None show ?thesis by (auto simp: reposition_def dest: in_set_butlastD)
next
  case (Some i)
  then have i: "i < length ds" "isObjectNamed ''Query'' (ds ! i)" by (auto dest: findIndex_Some)
  from i(1) have "take i ds @ ds ! i # drop (Suc i) ds = ds" by (rule id_take_nth_drop[symmetric])
  then have "filter (isObjectNamed ''Query'') (take i ds @ ds ! i # drop (Suc i) ds)
      = filter (isObjectNamed ''Query'') ds" by (rule arg_cong)
  then have "length (filter (isObjectNamed ''Query'') (take i ds @ ds ! i # drop (Suc i) ds)) \<le> 1"
    using assms by simp
  with i(2) have "filter (isObjectNamed ''Query'') (take i ds) = []"
    "filter (isObjectNamed ''Query'') (drop (Suc i) ds) = []"
    by simp_all
  then have "\<forall>x\<in>set (take i ds @ drop (Suc i) ds). \<not> isObjectNamed ''Query'' x"
    by (auto simp: filter_empty_conv)
  moreover have "butlast (reposition ds) = take i ds @ drop (Suc i) ds"
    using Some by (simp add: reposition_def butlast_append)
  ultimately show ?thesis by simp
qed

lemma evolved_only_last:
  assumes "list_all2 evolved s s'" and "\<forall>x\<in>set (butlast s). \<not> isObjectNamed n x"
  shows "\<forall>x\<in>set (butlast s'). \<not> isObjectNamed n x"
proof
  fix x assume "x \<in> set (butlast s')"
  then obtain k where k: "k < length (butlast s')" "x = butlast s' ! k"
    by (auto simp: in_set_conv_nth)
  from assms(1) have len: "length s' = length s" by (rule all_evolved_length)
  with k have k': "k < length (butlast s)" "k < length s" by simp_all
  from k have x: "x = s' ! k" by (simp add: nth_butlast)
  from k' have "butlast s ! k = s ! k" by (simp add: nth_butlast)
  moreover from k'(1) have "butlast s ! k \<in> set (butlast s)" by (rule nth_mem)
  ultimately have "\<not> isObjectNamed n (s ! k)" using assms(2) by auto
  moreover from assms(1) k'(2) have "evolved (s ! k) (s' ! k)" by (simp add: list_all2_conv_all_nth)
  ultimately show "\<not> isObjectNamed n x"
    using x by (auto simp: isObjectNamed_def evolved_def)
qed

lemma filter_only_last:
  assumes "\<forall>x\<in>set (butlast xs). \<not> Q x"
  shows "\<forall>x\<in>set (butlast (filter P xs)). \<not> Q x"
proof -
  have "set (butlast (filter P xs)) \<subseteq> set (butlast xs)"
  proof (induction xs rule: rev_induct)
    case Nil
    show ?case by simp
  next
    case (snoc y ys)
    show ?case
    proof (cases "P y")
      case True
      then show ?thesis by auto
    next
      case False
      then have "set (butlast (filter P (ys @ [y]))) \<subseteq> set (filter P ys)"
        by (auto dest: in_set_butlastD)
      then show ?thesis by auto
    qed
  qed
  with assms show ?thesis by blast
qed

lemma only_last_fixed:
  assumes "\<forall>x\<in>set (butlast xs). \<not> Q x"
  shows "(case findIndex Q xs of None \<Rightarrow> xs | Some i \<Rightarrow> take i xs @ drop (Suc i) xs @ [xs ! i]) = xs"
proof (cases "findIndex Q xs")
  case None
  then show ?thesis by simp
next
  case (Some i)
  then have i: "i < length xs" "Q (xs ! i)" by (auto dest: findIndex_Some)
  have last: "Suc i = length xs"
  proof (rule ccontr)
    assume "Suc i \<noteq> length xs"
    with i(1) have b: "i < length (butlast xs)" by simp
    then have "butlast xs ! i \<in> set (butlast xs)" by (rule nth_mem)
    moreover have "butlast xs ! i = xs ! i" using b by (simp add: nth_butlast)
    ultimately show False using assms i(2) by auto
  qed
  then have "drop (Suc i) xs = []" by simp
  moreover have "take i xs @ [xs ! i] = take (Suc i) xs"
    using i(1) by (simp add: take_Suc_conv_app_nth)
  moreover have "take (Suc i) xs = xs" using last by simp
  ultimately show ?thesis using Some by simp
qed

lemma reposition_fixed:
  "\<forall>x\<in>set (butlast ds). \<not> isObjectNamed ''Query'' x \<Longrightarrow> reposition ds = ds"
  unfolding reposition_def by (rule only_last_fixed)

subsection \<open>Binding\<close>

lemma toLowerCase_append: "toLowerCase (a @ b) = toLowerCase a @ toLowerCase b"
  by (simp add: toLowerCase_def)

lemma length_toLowerCase: "length (toLowerCase a) = length a"
  by (simp add: toLowerCase_def)

lemma isArgsOf_argsName:
  assumes "isArgsOf opName f d" and "opName = ''Query'' \<or> opName = ''Mutation''"
  shows "argsName (name d)"
proof -
  from assms(1) have l: "toLowerCase (name d) = toLowerCase opName @ toLowerCase f @ toLowerCase ''Args''"
    by (simp add: isArgsOf_def toLowerCase_append)
  have a: "toLowerCase ''Args'' = ''args''" "toLowerCase ''Query'' = ''query''"
    "toLowerCase ''Mutation'' = ''mutation''"
    by (simp_all add: toLowerCase_def toLowerChar_def upperLetters_def lowerLetters_def)
  from assms(2) show ?thesis
  proof
    assume "opName = ''Query''"
    with l a have "toLowerCase (name d) = ''query'' @ toLowerCase f @ ''args''" by simp
    then show ?thesis
      unfolding argsName_def Let_def by (simp add: startsWith_def endsWith_def)
  next
    assume "opName = ''Mutation''"
    with l a have "toLowerCase (name d) = ''mutation'' @ toLowerCase f @ ''args''" by simp
    then show ?thesis
      unfolding argsName_def Let_def by (simp add: startsWith_def endsWith_def)
  qed
qed

lemma forEach_fixed:
  "(\<And>x. x \<in> set xs \<Longrightarrow> f x s = Inr s) \<Longrightarrow> forEach f xs s = Inr s"
  by (induction xs) auto

lemma bindArguments_fixed:
  assumes "\<forall>d\<in>set s. \<not> argsName (name d)" and "opName = ''Query'' \<or> opName = ''Mutation''"
  shows "bindArguments step opName s = Inr s"
proof -
  have none: "findIndex (isArgsOf opName f) s = None" for f
    using assms by (auto simp: findIndex_None dest: isArgsOf_argsName)
  then have "bindField step opName q jf s = Inr s" for q jf
    by (simp add: bindField_def)
  then have "forEach (bindField step opName q) jfs s = Inr s" for q jfs
    by (intro forEach_fixed)
  then show ?thesis by (simp add: bindArguments_def split: option.splits)
qed

subsection \<open>Idempotence\<close>

lemma output_names:
  assumes "list_all2 evolved (reposition ds) s2" and "d \<in> set s2"
  shows "\<exists>d0\<in>set ds. name d0 = name d"
proof -
  from assms(2) obtain k where k: "k < length s2" "d = s2 ! k" by (auto simp: in_set_conv_nth)
  with assms(1) have "k < length (reposition ds)" "name (s2 ! k) = name (reposition ds ! k)"
    by (simp_all add: all_evolved_length all_evolved_name)
  then have "reposition ds ! k \<in> set (reposition ds)" "name (reposition ds ! k) = name d"
    using k by simp_all
  then show ?thesis unfolding set_reposition by blast
qed

lemma rewrite_again:
  assumes shape: "list_all2 evolved (reposition ds) s2" "\<not> list_ex hasNoName s2"
      "out = filter (\<lambda>d. \<not> P (name d)) s2"
    and one: "length (filter (isObjectNamed ''Query'') ds) \<le> 1"
    and args: "\<forall>d\<in>set ds. argsName (name d) \<longrightarrow> P (name d)"
  shows "reposition out = out" and "\<forall>d\<in>set out. \<not> argsName (name d)"
    and "\<not> list_ex hasNoName out" and "filter (\<lambda>d. \<not> P (name d)) out = out"
proof -
  have "\<forall>x\<in>set (butlast s2). \<not> isObjectNamed ''Query'' x"
    using shape(1) reposition_only_last[OF one] by (rule evolved_only_last)
  then have "\<forall>x\<in>set (butlast out). \<not> isObjectNamed ''Query'' x"
    unfolding shape(3) by (rule filter_only_last)
  then show "reposition out = out" by (rule reposition_fixed)
  show "\<forall>d\<in>set out. \<not> argsName (name d)"
  proof
    fix d assume "d \<in> set out"
    then have d: "d \<in> set s2" "\<not> P (name d)" by (simp_all add: shape(3))
    from output_names[OF shape(1) d(1)] obtain d0 where "d0 \<in> set ds" "name d0 = name d"
      by blast
    with args d(2) show "\<not> argsName (name d)" by auto
  qed
  show "\<not> list_ex hasNoName out" using shape(2) by (auto simp: shape(3) list_ex_iff)
  show "filter (\<lambda>d. \<not> P (name d)) out = out" by (simp add: shape(3))
qed

lemma rewrite1_again:
  assumes "rewrite1 ds = Inr out"
    and "length (filter (isObjectNamed ''Query'') ds) \<le> 1"
    and "\<forall>d\<in>set ds. argsName (name d) \<longrightarrow> pruned1 (name d)"
  shows "reposition out = out \<and> bindArguments changeArgumentType1 ''Mutation'' out = Inr out
     \<and> bindArguments keepArgumentType ''Query'' out = Inr out \<and> prune1 out = Inr out
     \<and> rewrite1 out = Inr out"
proof -
  from rewrite1_shape[OF assms(1)] obtain s2 where
    s2: "list_all2 evolved (reposition ds) s2" "\<not> list_ex hasNoName s2"
      "out = filter (\<lambda>d. \<not> pruned1 (name d)) s2"
    by blast
  note again = rewrite_again[OF s2 assms(2,3)]
  have b: "bindArguments step opName out = Inr out"
    if "opName = ''Query'' \<or> opName = ''Mutation''" for step opName
    using again(2) that by (rule bindArguments_fixed)
  have "prune1 out = Inr (filter (\<lambda>d. \<not> pruned1 (name d)) out)"
    using again(3) by (auto simp: prune1_def pruned1_def intro: filter_cong)
  with again(4) have "prune1 out = Inr out" by simp
  with again(1) b show ?thesis by (simp add: rewrite1_def)
qed

lemma rewrite2_again:
  assumes "rewrite2 ds = Inr out"
    and "length (filter (isObjectNamed ''Query'') ds) \<le> 1"
    and "\<forall>d\<in>set ds. argsName (name d) \<longrightarrow> pruned2 (name d)"
  shows "reposition out = out \<and> bindArguments changeArgumentType2 ''Query'' out = Inr out
     \<and> bindArguments changeArgumentType2 ''Mutation'' out = Inr out \<and> prune2 out = Inr out
     \<and> rewrite2 out = Inr out"
proof -
  from rewrite2_shape[OF assms(1)] obtain s2 where
    s2: "list_all2 evolved (reposition ds) s2" "\<not> list_ex hasNoName s2"
      "out = filter (\<lambda>d. \<not> pruned2 (name d)) s2"
    by blast
  note again = rewrite_again[OF s2 assms(2,3)]
  have b: "bindArguments step opName out = Inr out"
    if "opName = ''Query'' \<or> opName = ''Mutation''" for step opName
    using again(2) that by (rule bindArguments_fixed)
  have "prune2 out = Inr (filter (\<lambda>d. \<not> pruned2 (name d)) out)"
    using again(3) by (auto simp: prune2_def pruned2_def intro: filter_cong)
  with again(4) have "prune2 out = Inr out" by simp
  with again(1) b show ?thesis by (simp add: rewrite2_def)
qed

lemmas example_simps = rewrite_simps objectType_def inputType_def argsName_def endsWith_def
  pruned1_def pruned2_def

text \<open>
  Claim C4 says that the rewrite leaves its own output unchanged.  Two documents on which
  it does not, though no name in the first output is matched by a prune pattern.  With two
  object types named \<^verbatim>\<open>Query\<close>, each run moves the first one behind the other.  With Args
  definitions spelled in lower and in upper case (which the lookup matches and the prune
  patterns do not), the first run binds \<^verbatim>\<open>first\<close> to \<^verbatim>\<open>queryfirstargs\<close> and then turns that
  definition into an input type, so the second run binds \<^verbatim>\<open>first\<close> to \<^verbatim>\<open>QUERYFIRSTARGS\<close>.
  The same with \<^verbatim>\<open>Mutation\<close> in the first copy.
\<close>

theorem rewrite_twice_counterexample:
  "rewrite1 [objectType ''Query'' [FieldDefinition ''a'' [] (NamedType ''Int'')],
             objectType ''Query'' [FieldDefinition ''b'' [] (NamedType ''Int'')]]
     = Inr [objectType ''Query'' [FieldDefinition ''b'' [] (NamedType ''Int'')],
            objectType ''Query'' [FieldDefinition ''a'' [] (NamedType ''Int'')]]
   \<and> rewrite1 [objectType ''Query'' [FieldDefinition ''b'' [] (NamedType ''Int'')],
               objectType ''Query'' [FieldDefinition ''a'' [] (NamedType ''Int'')]]
     = Inr [objectType ''Query'' [FieldDefinition ''a'' [] (NamedType ''Int'')],
            objectType ''Query'' [FieldDefinition ''b'' [] (NamedType ''Int'')]]
   \<and> rewrite2 [objectType ''Query'' [FieldDefinition ''a'' [] (NamedType ''Int'')],
               objectType ''Query'' [FieldDefinition ''b'' [] (NamedType ''Int'')]]
     = Inr [objectType ''Query'' [FieldDefinition ''b'' [] (NamedType ''Int'')],
            objectType ''Query'' [FieldDefinition ''a'' [] (NamedType ''Int'')]]
   \<and> rewrite2 [objectType ''Query'' [FieldDefinition ''b'' [] (NamedType ''Int'')],
               objectType ''Query'' [FieldDefinition ''a'' [] (NamedType ''Int'')]]
     = Inr [objectType ''Query'' [FieldDefinition ''a'' [] (NamedType ''Int'')],
            objectType ''Query'' [FieldDefinition ''b'' [] (NamedType ''Int'')]]
   \<and> rewrite2
        [objectType ''queryfirstargs'' [FieldDefinition ''x'' [] (NonNullType (NamedType ''Int''))],
         objectType ''QUERYFIRSTARGS'' [FieldDefinition ''z'' [] (NonNullType (NamedType ''Int''))],
         objectType ''querysecondargs''
           [FieldDefinition ''y'' [] (NonNullType (NamedType ''queryfirstargs''))],
         objectType ''Query''
           [FieldDefinition ''first'' [] (NamedType ''Int''),
            FieldDefinition ''second'' [] (NamedType ''Int'')]]
     = Inr
        [inputType ''queryfirstargs'' [FieldDefinition ''x'' [] (NonNullType (NamedType ''Int''))],
         objectType ''QUERYFIRSTARGS'' [FieldDefinition ''z'' [] (NonNullType (NamedType ''Int''))],
         objectType ''querysecondargs''
           [FieldDefinition ''y'' [] (NonNullType (NamedType ''queryfirstargs''))],
         objectType ''Query''
           [FieldDefinition ''first''
              [FieldDefinition ''x'' [] (NonNullType (NamedType ''Int''))] (NamedType ''Int''),
            FieldDefinition ''second''
              [FieldDefinition ''y'' [] (NonNullType (NamedType ''queryfirstargs''))]
              (NamedType ''Int'')]]
   \<and> rewrite2
        [inputType ''queryfirstargs'' [FieldDefinition ''x'' [] (NonNullType (NamedType ''Int''))],
         objectType ''QUERYFIRSTARGS'' [FieldDefinition ''z'' [] (NonNullType (NamedType ''Int''))],
         objectType ''querysecondargs''
           [FieldDefinition ''y'' [] (NonNullType (NamedType ''queryfirstargs''))],
         objectType ''Query''
           [FieldDefinition ''first''
              [FieldDefinition ''x'' [] (NonNullType (NamedType ''Int''))] (NamedType ''Int''),
            FieldDefinition ''second''
              [FieldDefinition ''y'' [] (NonNullType (NamedType ''queryfirstargs''))]
              (NamedType ''Int'')]]
     = Inr
        [inputType ''queryfirstargs'' [FieldDefinition ''x'' [] (NonNullType (NamedType ''Int''))],
         objectType ''QUERYFIRSTARGS'' [FieldDefinition ''z'' [] (NonNullType (NamedType ''Int''))],
         objectType ''querysecondargs''
           [FieldDefinition ''y'' [] (NonNullType (NamedType ''queryfirstargs''))],
         objectType ''Query''
           [FieldDefinition ''first''
              [FieldDefinition ''z'' [] (NonNullType (NamedType ''Int''))] (NamedType ''Int''),
            FieldDefinition ''second''
              [FieldDefinition ''y'' [] (NonNullType (NamedType ''queryfirstargs''))]
              (NamedType ''Int'')]]
   \<and> rewrite1
        [objectType ''mutationfirstargs'' [FieldDefinition ''x'' [] (NonNullType (NamedType ''Int''))],
         objectType ''MUTATIONFIRSTARGS'' [FieldDefinition ''z'' [] (NonNullType (NamedType ''Int''))],
         objectType ''mutationsecondargs''
           [FieldDefinition ''y'' [] (NonNullType (NamedType ''mutationfirstargs''))],
         objectType ''Mutation''
           [FieldDefinition ''first'' [] (NamedType ''Int''),
            FieldDefinition ''second'' [] (NamedType ''Int'')]]
     = Inr
        [inputType ''mutationfirstargs'' [FieldDefinition ''x'' [] (NonNullType (NamedType ''Int''))],
         objectType ''MUTATIONFIRSTARGS'' [FieldDefinition ''z'' [] (NonNullType (NamedType ''Int''))],
         objectType ''mutationsecondargs''
           [FieldDefinition ''y'' [] (NonNullType (NamedType ''mutationfirstargs''))],
         objectType ''Mutation''
           [FieldDefinition ''first''
              [FieldDefinition ''x'' [] (NonNullType (NamedType ''Int''))] (NamedType ''Int''),
            FieldDefinition ''second''
              [FieldDefinition ''y'' [] (NonNullType (NamedType ''mutationfirstargs''))]
              (NamedType ''Int'')]]
   \<and> rewrite1
        [inputType ''mutationfirstargs'' [FieldDefinition ''x'' [] (NonNullType (NamedType ''Int''))],
         objectType ''MUTATIONFIRSTARGS'' [FieldDefinition ''z'' [] (NonNullType (NamedType ''Int''))],
         objectType ''mutationsecondargs''
           [FieldDefinition ''y'' [] (NonNullType (NamedType ''mutationfirstargs''))],
         objectType ''Mutation''
           [FieldDefinition ''first''
              [FieldDefinition ''x'' [] (NonNullType (NamedType ''Int''))] (NamedType ''Int''),
            FieldDefinition ''second''
              [FieldDefinition ''y'' [] (NonNullType (NamedType ''mutationfirstargs''))]
              (NamedType ''Int'')]]
     = Inr
        [inputType ''mutationfirstargs'' [FieldDefinition ''x'' [] (NonNullType (NamedType ''Int''))],
         objectType ''MUTATIONFIRSTARGS'' [FieldDefinition ''z'' [] (NonNullType (NamedType ''Int''))],
         objectType ''mutationsecondargs''
           [FieldDefinition ''y'' [] (NonNullType (NamedType ''mutationfirstargs''))],
         objectType ''Mutation''
           [FieldDefinition ''first''
              [FieldDefinition ''z'' [] (NonNullType (NamedType ''Int''))] (NamedType ''Int''),
            FieldDefinition ''second''
              [FieldDefinition ''y'' [] (NonNullType (NamedType ''mutationfirstargs''))]
              (NamedType ''Int'')]]
   \<and> \<not> pruned2 ''queryfirstargs'' \<and> \<not> pruned2 ''QUERYFIRSTARGS'' \<and> \<not> pruned2 ''querysecondargs''
   \<and> \<not> pruned1 ''mutationfirstargs'' \<and> \<not> pruned1 ''MUTATIONFIRSTARGS''
   \<and> \<not> pruned1 ''mutationsecondargs''"
  by (simp add: example_simps)

text \<open>
  Claim C4, amended: for a document with at most one object type named \<^verbatim>\<open>Query\<close>, in which
  every definition that a binding lookup can match (a name that is, in lower case,
  \<^verbatim>\<open>query...args\<close> or \<^verbatim>\<open>mutation...args\<close>) has a name that the prune patterns match: if the
  rewrite returns a document, then on that document reposition, both binding passes and
  prune change nothing, and the rewrite returns it again.  Both copies.
\<close>

theorem rewrite_idempotent:
  "length (filter (isObjectNamed ''Query'') ds) \<le> 1 \<longrightarrow>
     ((\<forall>d\<in>set ds. argsName (name d) \<longrightarrow> pruned1 (name d)) \<longrightarrow> rewrite1 ds = Inr out1 \<longrightarrow>
        reposition out1 = out1 \<and> bindArguments changeArgumentType1 ''Mutation'' out1 = Inr out1
        \<and> bindArguments keepArgumentType ''Query'' out1 = Inr out1 \<and> prune1 out1 = Inr out1
        \<and> rewrite1 out1 = Inr out1)
     \<and> ((\<forall>d\<in>set ds. argsName (name d) \<longrightarrow> pruned2 (name d)) \<longrightarrow> rewrite2 ds = Inr out2 \<longrightarrow>
        reposition out2 = out2 \<and> bindArguments changeArgumentType2 ''Query'' out2 = Inr out2
        \<and> bindArguments changeArgumentType2 ''Mutation'' out2 = Inr out2 \<and> prune2 out2 = Inr out2
        \<and> rewrite2 out2 = Inr out2)"
  using rewrite1_again[of ds out1] rewrite2_again[of ds out2] by blast

theorem rewrite_idempotent_witness:
  "rewrite1
     [objectType ''Address'' [FieldDefinition ''street'' [] (NamedType ''String'')],
      objectType ''Mutation'' [FieldDefinition ''add'' [] (NamedType ''Int'')],
      objectType ''Query'' [FieldDefinition ''find''
         [FieldDefinition ''where'' [] (NonNullType (NamedType ''Address''))] (NamedType ''Int'')]]
     = Inr
     [objectType ''Address'' [FieldDefinition ''street'' [] (NamedType ''String'')],
      objectType ''Mutation'' [FieldDefinition ''add'' [] (NamedType ''Int'')],
      objectType ''Query'' [FieldDefinition ''find''
         [FieldDefinition ''where'' [] (NonNullType (NamedType ''Address''))] (NamedType ''Int'')]]
   \<and> rewrite2
     [inputType ''Address'' [FieldDefinition ''street'' [] (NamedType ''String'')],
      objectType ''Mutation'' [FieldDefinition ''add'' [] (NamedType ''Int'')],
      objectType ''Query'' [FieldDefinition ''find''
         [FieldDefinition ''where'' [] (NonNullType (NamedType ''Address''))] (NamedType ''Int'')]]
     = Inr
     [inputType ''Address'' [FieldDefinition ''street'' [] (NamedType ''String'')],
      objectType ''Mutation'' [FieldDefinition ''add'' [] (NamedType ''Int'')],
      objectType ''Query'' [FieldDefinition ''find''
         [FieldDefinition ''where'' [] (NonNullType (NamedType ''Address''))] (NamedType ''Int'')]]"
proof -
  let ?ds = "[objectType ''Address'' [FieldDefinition ''street'' [] (NamedType ''String'')],
      objectType ''QueryfindArgs'' [FieldDefinition ''where'' [] (NonNullType (NamedType ''Address''))],
      objectType ''Query'' [FieldDefinition ''find'' [] (NamedType ''Int'')],
      objectType ''Mutation'' [FieldDefinition ''add'' [] (NamedType ''Int'')]]"
  let ?out1 = "[objectType ''Address'' [FieldDefinition ''street'' [] (NamedType ''String'')],
      objectType ''Mutation'' [FieldDefinition ''add'' [] (NamedType ''Int'')],
      objectType ''Query'' [FieldDefinition ''find''
         [FieldDefinition ''where'' [] (NonNullType (NamedType ''Address''))] (NamedType ''Int'')]]"
  let ?out2 = "[inputType ''Address'' [FieldDefinition ''street'' [] (NamedType ''String'')],
      objectType ''Mutation'' [FieldDefinition ''add'' [] (NamedType ''Int'')],
      objectType ''Query'' [FieldDefinition ''find''
         [FieldDefinition ''where'' [] (NonNullType (NamedType ''Address''))] (NamedType ''Int'')]]"
  have one: "length (filter (isObjectNamed ''Query'') ?ds) \<le> 1"
    by (simp add: isObjectNamed_def objectType_def)
  have a1: "\<forall>d\<in>set ?ds. argsName (name d) \<longrightarrow> pruned1 (name d)"
    by (simp add: example_simps)
  have a2: "\<forall>d\<in>set ?ds. argsName (name d) \<longrightarrow> pruned2 (name d)"
    by (simp add: example_simps)
  have r1: "rewrite1 ?ds = Inr ?out1" by (simp add: example_simps)
  have r2: "rewrite2 ?ds = Inr ?out2" by (simp add: example_simps)
  from rewrite_idempotent[of ?ds ?out1 ?out2] one a1 a2 r1 r2
  show ?thesis by blast
qed

section \<open>Reclassification of argument types\<close>

lemma find_findIndex: "find P xs = Some x \<Longrightarrow> \<exists>i. findIndex P xs = Some i \<and> xs ! i = x"
  by (induction xs) (auto split: if_splits)

lemma find_app:
  "find P (xs @ ys) = (case find P xs of None \<Rightarrow> find P ys | Some x \<Rightarrow> Some x)"
  by (induction xs) auto

lemma find_reposition:
  assumes "n \<noteq> ''Query''"
  shows "find (isObjectNamed n) (reposition ds) = find (isObjectNamed n) ds"
proof (cases "findIndex (isObjectNamed ''Query'') ds")
  case None
  then show ?thesis by (simp add: reposition_def)
next
  case (Some i)
  then have i: "i < length ds" "\<not> isObjectNamed n (ds ! i)"
    using assms by (auto dest: findIndex_Some simp: isObjectNamed_def)
  from i(1) have "take i ds @ ds ! i # drop (Suc i) ds = ds" by (rule id_take_nth_drop[symmetric])
  then have "find (isObjectNamed n) ds
      = find (isObjectNamed n) (take i ds @ ds ! i # drop (Suc i) ds)" by simp
  also have "\<dots> = find (isObjectNamed n) (take i ds @ drop (Suc i) ds @ [ds ! i])"
    using i(2) by (simp add: find_app split: option.splits)
  finally show ?thesis using Some by (simp add: reposition_def)
qed

lemma all_evolved_nth:
  "list_all2 evolved s s' \<Longrightarrow> i < length s \<Longrightarrow> evolved (s ! i) (s' ! i)"
  by (simp add: list_all2_conv_all_nth)

lemma all_evolved_Input:
  "list_all2 evolved s s' \<Longrightarrow> i < length s \<Longrightarrow> kind (s ! i) = InputObjectTypeDefinition
     \<Longrightarrow> kind (s' ! i) = InputObjectTypeDefinition"
  by (auto dest!: all_evolved_nth simp: evolved_def)

lemma changeArgumentType2_target:
  assumes step: "changeArgumentType2 arg m = Inr m'"
    and n: "typeTypeName (ftype arg) = Some n"
    and ev: "list_all2 evolved s0 m"
    and i1: "findIndex (isObjectNamed n) s0 = Some i1"
  shows "kind (m' ! i1) = InputObjectTypeDefinition"
proof -
  from findIndex_Some[OF i1] have s0: "i1 < length s0" "isObjectNamed n (s0 ! i1)"
    "\<forall>k<i1. \<not> isObjectNamed n (s0 ! k)" by auto
  from ev have len: "length m = length s0" by (rule all_evolved_length)
  from all_evolved_nth[OF ev s0(1)] s0(2)
  have m1: "name (m ! i1) = n"
    "kind (m ! i1) = ObjectTypeDefinition \<or> kind (m ! i1) = InputObjectTypeDefinition"
    by (auto simp: evolved_def isObjectNamed_def)
  let ?P = "\<lambda>d. kind d = ObjectTypeDefinition
                  \<and> (case typeTypeName (ftype arg) of None \<Rightarrow> False | Some n \<Rightarrow> name d = n)"
  from m1(2) show ?thesis
  proof
    assume obj: "kind (m ! i1) = ObjectTypeDefinition"
    with m1(1) n have "?P (m ! i1)" by simp
    with s0(1) len obtain i where i: "i \<le> i1" "findIndex ?P m = Some i"
      using findIndex_least[of i1 m ?P] by auto
    from findIndex_Some[OF i(2)] n have "kind (m ! i) = ObjectTypeDefinition" "name (m ! i) = n"
      by auto
    moreover from i(1) s0(1) have "evolved (s0 ! i) (m ! i)" by (intro all_evolved_nth[OF ev]) simp
    ultimately have "isObjectNamed n (s0 ! i)" by (auto simp: evolved_def isObjectNamed_def)
    with s0(3) i(1) have "i = i1" by (cases "i < i1") auto
    with i(2) step have "m' = reclassify i1 m"
      by (simp add: changeArgumentType2_def findTarget2_def)
    with s0(1) len show ?thesis by (simp add: reclassify_def)
  next
    assume "kind (m ! i1) = InputObjectTypeDefinition"
    with all_evolved_Input[OF changeArgumentType2_evolved[OF step]] s0(1) len
    show ?thesis by simp
  qed
qed

lemma forEach_changeArgumentType2_target:
  assumes run: "forEach changeArgumentType2 args m = Inr m'"
    and arg: "arg \<in> set args" "typeTypeName (ftype arg) = Some n"
    and ev: "list_all2 evolved s0 m"
    and i1: "findIndex (isObjectNamed n) s0 = Some i1"
  shows "kind (m' ! i1) = InputObjectTypeDefinition"
proof -
  from arg(1) obtain pre post where args: "args = pre @ arg # post" by (auto dest: split_list)
  with run obtain m1 m2 where
    m1: "forEach changeArgumentType2 pre m = Inr m1" and
    m2: "changeArgumentType2 arg m1 = Inr m2" and
    m': "forEach changeArgumentType2 post m2 = Inr m'"
    by (auto simp: forEach_append split: sum.splits)
  have "list_all2 evolved m m1"
    using m1 by (rule forEach_step_evolved[rotated]) (erule changeArgumentType2_evolved)
  with ev have ev1: "list_all2 evolved s0 m1" by (rule all_evolved_trans)
  have 2: "kind (m2 ! i1) = InputObjectTypeDefinition"
    using m2 arg(2) ev1 i1 by (rule changeArgumentType2_target)
  have "list_all2 evolved m2 m'"
    using m' by (rule forEach_step_evolved[rotated]) (erule changeArgumentType2_evolved)
  moreover have "i1 < length m2"
    using findIndex_Some[OF i1] ev1 changeArgumentType2_evolved[OF m2]
    by (simp add: all_evolved_length)
  ultimately show ?thesis using 2 by (rule all_evolved_Input)
qed

lemma bindArguments_target:
  assumes ev: "list_all2 evolved s0 s"
    and op: "opName = ''Query'' \<or> opName = ''Mutation''"
    and q: "findIndex (isObjectNamed opName) s = Some q"
    and j: "j < length (fields' (s ! q))"
    and sj: "forEach (bindField changeArgumentType2 opName q)
               (take j (enumerate 0 (fields' (s ! q)))) s = Inr sj"
    and a: "findIndex (isArgsOf opName (fname (fields' (s ! q) ! j))) sj = Some a"
    and arg: "arg \<in> set (fields' (sj ! a))" "typeTypeName (ftype arg) = Some n"
    and i1: "findIndex (isObjectNamed n) s0 = Some i1"
    and run: "bindArguments changeArgumentType2 opName s = Inr s'"
  shows "kind (s' ! i1) = InputObjectTypeDefinition"
proof -
  let ?es = "enumerate 0 (fields' (s ! q))"
  let ?f = "bindField changeArgumentType2 opName q"
  from findIndex_Some[OF q] op have qs: "q < length s"
    "name (s ! q) = ''Query'' \<or> name (s ! q) = ''Mutation''"
    by (auto simp: isObjectNamed_def)
  from j have ej: "?es ! j = (j, fields' (s ! q) ! j)" by (simp add: nth_enumerate_eq)
  from j have "take j ?es @ ?es ! j # drop (Suc j) ?es = ?es"
    by (intro id_take_nth_drop[symmetric]) simp
  then have "forEach ?f ?es s = forEach ?f (take j ?es @ [?es ! j] @ drop (Suc j) ?es) s"
    by simp
  also have "\<dots> = (case ?f (?es ! j) sj of Inl e \<Rightarrow> Inl e
                    | Inr b \<Rightarrow> forEach ?f (drop (Suc j) ?es) b)"
    unfolding forEach_append using sj by (simp split: sum.splits)
  finally have "(case ?f (?es ! j) sj of Inl e \<Rightarrow> Inl e
                    | Inr b \<Rightarrow> forEach ?f (drop (Suc j) ?es) b) = Inr s'"
    using run q by (simp add: bindArguments_def)
  then obtain sj' where sj': "?f (?es ! j) sj = Inr sj'" and rest: "forEach ?f (drop (Suc j) ?es) sj' = Inr s'"
    by (auto split: sum.splits)
  have evj: "list_all2 evolved s sj"
    using qs sj by (rule bindFields_evolved[rotated]) (erule changeArgumentType2_evolved)
  with ev have ev0j: "list_all2 evolved s0 sj" by (rule all_evolved_trans)
  from evj qs have qj: "q < length sj" "name (sj ! q) = ''Query'' \<or> name (sj ! q) = ''Mutation''"
    by (simp_all add: all_evolved_length all_evolved_name)
  let ?m = "setArguments q j (fields' (sj ! a)) sj"
  from sj' a ej have m: "forEach changeArgumentType2 (fields' (sj ! a)) ?m = Inr sj'"
    by (simp add: bindField_def)
  have "list_all2 evolved sj ?m" using qj by (rule setArguments_evolved)
  with ev0j have "list_all2 evolved s0 ?m" by (rule all_evolved_trans)
  with m arg have k: "kind (sj' ! i1) = InputObjectTypeDefinition"
    using i1 by (rule forEach_changeArgumentType2_target)
  have evj': "list_all2 evolved sj sj'"
    using qj sj' by (rule bindField_evolved[rotated]) (erule changeArgumentType2_evolved)
  with qj have qj': "q < length sj'" "name (sj' ! q) = ''Query'' \<or> name (sj' ! q) = ''Mutation''"
    by (simp_all add: all_evolved_length all_evolved_name)
  have "list_all2 evolved sj' s'"
    using qj' rest by (rule bindFields_evolved[rotated]) (erule changeArgumentType2_evolved)
  moreover have "i1 < length sj'"
    using findIndex_Some[OF i1] ev0j evj' by (simp add: all_evolved_length)
  ultimately show ?thesis using k by (rule all_evolved_Input)
qed

lemma reclassified_survives:
  assumes ev: "list_all2 evolved s0 s2"
    and i1: "findIndex (isObjectNamed n) s0 = Some i1"
    and k: "kind (s2 ! i1) = InputObjectTypeDefinition"
    and n: "n \<noteq> ''Query''" "n \<noteq> ''Mutation''" "\<not> P n"
  shows "(s0 ! i1)\<lparr>kind := InputObjectTypeDefinition\<rparr> \<in> set (filter (\<lambda>d. \<not> P (name d)) s2)"
proof -
  from findIndex_Some[OF i1] have s0: "i1 < length s0" "name (s0 ! i1) = n"
    by (auto simp: isObjectNamed_def)
  from all_evolved_nth[OF ev s0(1)] s0(2) n(1,2)
  have "name (s2 ! i1) = n" "fields' (s2 ! i1) = fields' (s0 ! i1)"
    by (auto simp: evolved_def)
  with k s0(2) have "s2 ! i1 = (s0 ! i1)\<lparr>kind := InputObjectTypeDefinition\<rparr>" by simp
  moreover have "s2 ! i1 \<in> set s2" using s0(1) ev by (simp add: all_evolved_length)
  moreover have "\<not> P (name (s2 ! i1))" using \<open>name (s2 ! i1) = n\<close> n(3) by simp
  ultimately show ?thesis by simp
qed

text \<open>
  Claim C1 (every object type named as the type of an argument field of a bound argument
  list is reclassified, in both passes and whatever the nullability of the type).  The
  code does not do it.  An optional member lowers to a nullable named type
  (\<^verbatim>\<open>where?: Address\<close> gives \<^verbatim>\<open>where: Address\<close>) and a list member to \<^verbatim>\<open>[Address]!\<close>.  On those
  the second copy, whose search is guarded by \<^verbatim>\<open>arg.type.type && arg.type.type.name\<close>,
  binds the field and leaves \<^verbatim>\<open>Address\<close> an object type; the Mutation pass of the first
  copy reads \<^verbatim>\<open>arg.type.type.name.value\<close> of them and throws; and the Query pass of the
  first copy changes no kind at all, even on \<^verbatim>\<open>where: Address!\<close>.
\<close>

theorem argument_type_not_reclassified:
  "generateMember
     (Member TSPropertySignature (Some (Identifier ''where''))
        (Some (TSTypeReference (Identifier ''Address'') None)) True)
     = Inr ''  where: Address''
   \<and> generateMember
     (Member TSPropertySignature (Some (Identifier ''near''))
        (Some (TSTypeReference (Identifier ''Array'')
                 (Some [TSTypeReference (Identifier ''Address'') None]))) False)
     = Inr ''  near: [Address]!''
   \<and> rewrite2
     [objectType ''Address'' [FieldDefinition ''street'' [] (NonNullType (NamedType ''String''))],
      objectType ''QueryfindArgs''
        [FieldDefinition ''where'' [] (NamedType ''Address''),
         FieldDefinition ''near'' [] (NonNullType (ListType (NamedType ''Address'')))],
      objectType ''Query'' [FieldDefinition ''find'' [] (NonNullType (NamedType ''Int''))]]
     = Inr
     [objectType ''Address'' [FieldDefinition ''street'' [] (NonNullType (NamedType ''String''))],
      objectType ''Query'' [FieldDefinition ''find''
         [FieldDefinition ''where'' [] (NamedType ''Address''),
          FieldDefinition ''near'' [] (NonNullType (ListType (NamedType ''Address'')))]
         (NonNullType (NamedType ''Int''))]]
   \<and> rewrite2
     [objectType ''Address'' [FieldDefinition ''street'' [] (NonNullType (NamedType ''String''))],
      objectType ''MutationaddArgs'' [FieldDefinition ''where'' [] (NamedType ''Address'')],
      objectType ''Mutation'' [FieldDefinition ''add'' [] (NonNullType (NamedType ''Int''))]]
     = Inr
     [objectType ''Address'' [FieldDefinition ''street'' [] (NonNullType (NamedType ''String''))],
      objectType ''Mutation'' [FieldDefinition ''add''
         [FieldDefinition ''where'' [] (NamedType ''Address'')]
         (NonNullType (NamedType ''Int''))]]
   \<and> rewrite1
     [objectType ''Address'' [FieldDefinition ''street'' [] (NonNullType (NamedType ''String''))],
      objectType ''MutationaddArgs'' [FieldDefinition ''where'' [] (NamedType ''Address'')],
      objectType ''Mutation'' [FieldDefinition ''add'' [] (NonNullType (NamedType ''Int''))]]
     = Inl TypeError
   \<and> rewrite1
     [objectType ''Address'' [FieldDefinition ''street'' [] (NonNullType (NamedType ''String''))],
      objectType ''MutationaddArgs''
        [FieldDefinition ''near'' [] (NonNullType (ListType (NamedType ''Address'')))],
      objectType ''Mutation'' [FieldDefinition ''add'' [] (NonNullType (NamedType ''Int''))]]
     = Inl TypeError
   \<and> rewrite1
     [objectType ''Address'' [FieldDefinition ''street'' [] (NonNullType (NamedType ''String''))],
      objectType ''QueryfindArgs''
        [FieldDefinition ''where'' [] (NonNullType (NamedType ''Address''))],
      objectType ''Query'' [FieldDefinition ''find'' [] (NonNullType (NamedType ''Int''))]]
     = Inr
     [objectType ''Address'' [FieldDefinition ''street'' [] (NonNullType (NamedType ''String''))],
      objectType ''Query'' [FieldDefinition ''find''
         [FieldDefinition ''where'' [] (NonNullType (NamedType ''Address''))]
         (NonNullType (NamedType ''Int''))]]"
  by (simp add: example_simps)

text \<open>
  What the second copy does reclassify.  Take either pass (\<open>opName\<close> is \<^verbatim>\<open>Query\<close> and \<open>s\<close> the
  repositioned document, or \<open>opName\<close> is \<^verbatim>\<open>Mutation\<close> and \<open>s\<close> the document after the Query
  pass), the operation type at position \<open>q\<close>, its field \<open>j\<close>, the document \<open>sj\<close> when the
  loop reaches that field, and the Args definition \<open>a\<close> that the lookup finds there: the
  field is bound to its fields.  For every one of those argument fields whose type is a
  non-null or list wrapper directly around a named type \<open>n\<close>: the first object type named
  \<open>n\<close> of the input is in the output as an input type, with the same name and the same
  fields, provided \<open>n\<close> is not \<^verbatim>\<open>Query\<close> or \<^verbatim>\<open>Mutation\<close> and is not matched by a prune pattern.
\<close>

theorem bound_argument_type_reclassified:
  assumes out: "rewrite2 ds = Inr out"
    and pass: "(opName = ''Query'' \<and> s = reposition ds)
       \<or> (opName = ''Mutation''
           \<and> bindArguments changeArgumentType2 ''Query'' (reposition ds) = Inr s)"
    and q: "findIndex (isObjectNamed opName) s = Some q"
    and j: "j < length (fields' (s ! q))"
    and sj: "forEach (bindField changeArgumentType2 opName q)
               (take j (enumerate 0 (fields' (s ! q)))) s = Inr sj"
    and a: "findIndex (isArgsOf opName (fname (fields' (s ! q) ! j))) sj = Some a"
    and arg: "arg \<in> set (fields' (sj ! a))" "typeTypeName (ftype arg) = Some n"
    and t: "find (isObjectNamed n) ds = Some t"
    and n: "n \<noteq> ''Query''" "n \<noteq> ''Mutation''" "\<not> pruned2 n"
  shows "t\<lparr>kind := InputObjectTypeDefinition\<rparr> \<in> set out"
proof -
  let ?s0 = "reposition ds"
  from out obtain s1 s2 where
    s1: "bindArguments changeArgumentType2 ''Query'' ?s0 = Inr s1" and
    s2: "bindArguments changeArgumentType2 ''Mutation'' s1 = Inr s2" and
    pr: "prune2 s2 = Inr out"
    by (auto simp: rewrite2_def split: sum.splits)
  have ev1: "list_all2 evolved ?s0 s1"
    using s1 by (rule bindArguments_evolved[rotated 2]) (auto dest: changeArgumentType2_evolved)
  have ev12: "list_all2 evolved s1 s2"
    using s2 by (rule bindArguments_evolved[rotated 2]) (auto dest: changeArgumentType2_evolved)
  from ev1 ev12 have ev2: "list_all2 evolved ?s0 s2" by (rule all_evolved_trans)
  from t n(1) have "find (isObjectNamed n) ?s0 = Some t" by (simp add: find_reposition)
  then obtain i1 where i1: "findIndex (isObjectNamed n) ?s0 = Some i1" "?s0 ! i1 = t"
    by (auto dest: find_findIndex)
  have k: "kind (s2 ! i1) = InputObjectTypeDefinition"
    using pass
  proof
    assume p: "opName = ''Query'' \<and> s = ?s0"
    then have "bindArguments changeArgumentType2 opName s = Inr s1" using s1 by simp
    with all_evolved_refl[of ?s0] p q j sj a arg i1(1)
    have "kind (s1 ! i1) = InputObjectTypeDefinition"
      by (intro bindArguments_target[where s = s and ?s0.0 = ?s0 and opName = opName
            and q = q and j = j and sj = sj and a = a and arg = arg and n = n]) simp_all
    moreover have "i1 < length s1"
      using findIndex_Some[OF i1(1)] ev1 by (simp add: all_evolved_length)
    ultimately show ?thesis using ev12 by (intro all_evolved_Input[of s1 s2])
  next
    assume p: "opName = ''Mutation''
       \<and> bindArguments changeArgumentType2 ''Query'' ?s0 = Inr s"
    with s1 have s: "s = s1" by simp
    with p s2 have "bindArguments changeArgumentType2 opName s = Inr s2" by simp
    with ev1 s p q j sj a arg i1(1)
    show ?thesis
      by (intro bindArguments_target[where s = s and ?s0.0 = ?s0 and opName = opName
            and q = q and j = j and sj = sj and a = a and arg = arg and n = n]) simp_all
  qed
  from pr have "out = filter (\<lambda>d. \<not> pruned2 (name d)) s2"
    by (auto simp: prune2_def pruned2_def split: if_splits intro: filter_cong)
  moreover have "(?s0 ! i1)\<lparr>kind := InputObjectTypeDefinition\<rparr>
      \<in> set (filter (\<lambda>d. \<not> pruned2 (name d)) s2)"
    using ev2 i1(1) k n by (rule reclassified_survives[where P = pruned2])
  ultimately show ?thesis using i1(2) by simp
qed

theorem bound_argument_type_reclassified_witness:
  "rewrite2
     [objectType ''Address'' [FieldDefinition ''street'' [] (NamedType ''String'')],
      objectType ''QueryfindArgs''
        [FieldDefinition ''where'' [] (NonNullType (NamedType ''Address''))],
      objectType ''MutationaddArgs''
        [FieldDefinition ''points'' [] (ListType (NamedType ''Point''))],
      objectType ''Point'' [FieldDefinition ''x'' [] (NamedType ''Int'')],
      objectType ''Mutation'' [FieldDefinition ''add'' [] (NamedType ''Int'')],
      objectType ''Query'' [FieldDefinition ''find'' [] (NamedType ''Int'')]]
     = Inr
     [inputType ''Address'' [FieldDefinition ''street'' [] (NamedType ''String'')],
      inputType ''Point'' [FieldDefinition ''x'' [] (NamedType ''Int'')],
      objectType ''Mutation'' [FieldDefinition ''add''
         [FieldDefinition ''points'' [] (ListType (NamedType ''Point''))] (NamedType ''Int'')],
      objectType ''Query'' [FieldDefinition ''find''
         [FieldDefinition ''where'' [] (NonNullType (NamedType ''Address''))] (NamedType ''Int'')]]
   \<and> (objectType ''Address'' [FieldDefinition ''street'' [] (NamedType ''String'')])
        \<lparr>kind := InputObjectTypeDefinition\<rparr>
       \<in> set
     [inputType ''Address'' [FieldDefinition ''street'' [] (NamedType ''String'')],
      inputType ''Point'' [FieldDefinition ''x'' [] (NamedType ''Int'')],
      objectType ''Mutation'' [FieldDefinition ''add''
         [FieldDefinition ''points'' [] (ListType (NamedType ''Point''))] (NamedType ''Int'')],
      objectType ''Query'' [FieldDefinition ''find''
         [FieldDefinition ''where'' [] (NonNullType (NamedType ''Address''))] (NamedType ''Int'')]]
   \<and> (objectType ''Point'' [FieldDefinition ''x'' [] (NamedType ''Int'')])
        \<lparr>kind := InputObjectTypeDefinition\<rparr>
       \<in> set
     [inputType ''Address'' [FieldDefinition ''street'' [] (NamedType ''String'')],
      inputType ''Point'' [FieldDefinition ''x'' [] (NamedType ''Int'')],
      objectType ''Mutation'' [FieldDefinition ''add''
         [FieldDefinition ''points'' [] (ListType (NamedType ''Point''))] (NamedType ''Int'')],
      objectType ''Query'' [FieldDefinition ''find''
         [FieldDefinition ''where'' [] (NonNullType (NamedType ''Address''))] (NamedType ''Int'')]]"
proof -
  let ?Address = "objectType ''Address'' [FieldDefinition ''street'' [] (NamedType ''String'')]"
  let ?QArgs = "objectType ''QueryfindArgs''
        [FieldDefinition ''where'' [] (NonNullType (NamedType ''Address''))]"
  let ?MArgs = "objectType ''MutationaddArgs''
        [FieldDefinition ''points'' [] (ListType (NamedType ''Point''))]"
  let ?Point = "objectType ''Point'' [FieldDefinition ''x'' [] (NamedType ''Int'')]"
  let ?Mutation = "objectType ''Mutation'' [FieldDefinition ''add'' [] (NamedType ''Int'')]"
  let ?Query = "objectType ''Query'' [FieldDefinition ''find'' [] (NamedType ''Int'')]"
  let ?Query' = "objectType ''Query'' [FieldDefinition ''find''
         [FieldDefinition ''where'' [] (NonNullType (NamedType ''Address''))] (NamedType ''Int'')]"
  let ?Mutation' = "objectType ''Mutation'' [FieldDefinition ''add''
         [FieldDefinition ''points'' [] (ListType (NamedType ''Point''))] (NamedType ''Int'')]"
  let ?ds = "[?Address, ?QArgs, ?MArgs, ?Point, ?Mutation, ?Query]"
  let ?s1 = "[inputType ''Address'' [FieldDefinition ''street'' [] (NamedType ''String'')],
      ?QArgs, ?MArgs, ?Point, ?Mutation, ?Query']"
  let ?out = "[inputType ''Address'' [FieldDefinition ''street'' [] (NamedType ''String'')],
      inputType ''Point'' [FieldDefinition ''x'' [] (NamedType ''Int'')], ?Mutation', ?Query']"
  have r: "rewrite2 ?ds = Inr ?out" by (simp add: example_simps)
  have s0: "reposition ?ds = ?ds" by (simp add: example_simps)
  have s1: "bindArguments changeArgumentType2 ''Query'' (reposition ?ds) = Inr ?s1"
    by (simp add: example_simps)
  have A: "?Address\<lparr>kind := InputObjectTypeDefinition\<rparr> \<in> set ?out"
  proof (rule bound_argument_type_reclassified[where ds = ?ds and opName = "''Query''"
        and s = ?ds and q = 5 and j = 0 and sj = ?ds and a = 1
        and arg = "FieldDefinition ''where'' [] (NonNullType (NamedType ''Address''))"
        and n = "''Address''"])
    show "rewrite2 ?ds = Inr ?out" by (rule r)
    show "(''Query'' = ''Query'' \<and> ?ds = reposition ?ds)
       \<or> (''Query'' = ''Mutation''
           \<and> bindArguments changeArgumentType2 ''Query'' (reposition ?ds) = Inr ?ds)"
      using s0 by simp
    show "findIndex (isObjectNamed ''Query'') ?ds = Some 5"
      by (simp add: isObjectNamed_def objectType_def)
    show "0 < length (fields' (?ds ! 5))" by (simp add: objectType_def)
    show "forEach (bindField changeArgumentType2 ''Query'' 5)
               (take 0 (enumerate 0 (fields' (?ds ! 5)))) ?ds = Inr ?ds" by simp
    show "findIndex (isArgsOf ''Query'' (fname (fields' (?ds ! 5) ! 0))) ?ds = Some 1"
      by (simp add: example_simps)
    show "FieldDefinition ''where'' [] (NonNullType (NamedType ''Address'')) \<in> set (fields' (?ds ! 1))"
      by (simp add: objectType_def)
    show "typeTypeName (ftype (FieldDefinition ''where'' [] (NonNullType (NamedType ''Address''))))
        = Some ''Address''" by simp
    show "find (isObjectNamed ''Address'') ?ds = Some ?Address"
      by (simp add: isObjectNamed_def objectType_def)
    show "''Address'' \<noteq> ''Query''" "''Address'' \<noteq> ''Mutation''" by simp_all
    show "\<not> pruned2 ''Address''" by (simp add: pruned2_def startsWith_def)
  qed
  have P: "?Point\<lparr>kind := InputObjectTypeDefinition\<rparr> \<in> set ?out"
  proof (rule bound_argument_type_reclassified[where ds = ?ds and opName = "''Mutation''"
        and s = ?s1 and q = 4 and j = 0 and sj = ?s1 and a = 2
        and arg = "FieldDefinition ''points'' [] (ListType (NamedType ''Point''))"
        and n = "''Point''"])
    show "rewrite2 ?ds = Inr ?out" by (rule r)
    show "(''Mutation'' = ''Query'' \<and> ?s1 = reposition ?ds)
       \<or> (''Mutation'' = ''Mutation''
           \<and> bindArguments changeArgumentType2 ''Query'' (reposition ?ds) = Inr ?s1)"
      using s1 by simp
    show "findIndex (isObjectNamed ''Mutation'') ?s1 = Some 4"
      by (simp add: isObjectNamed_def objectType_def inputType_def)
    show "0 < length (fields' (?s1 ! 4))" by (simp add: objectType_def)
    show "forEach (bindField changeArgumentType2 ''Mutation'' 4)
               (take 0 (enumerate 0 (fields' (?s1 ! 4)))) ?s1 = Inr ?s1" by simp
    show "findIndex (isArgsOf ''Mutation'' (fname (fields' (?s1 ! 4) ! 0))) ?s1 = Some 2"
      by (simp add: example_simps)
    show "FieldDefinition ''points'' [] (ListType (NamedType ''Point'')) \<in> set (fields' (?s1 ! 2))"
      by (simp add: objectType_def)
    show "typeTypeName (ftype (FieldDefinition ''points'' [] (ListType (NamedType ''Point''))))
        = Some ''Point''" by simp
    show "find (isObjectNamed ''Point'') ?ds = Some ?Point"
      by (simp add: isObjectNamed_def objectType_def)
    show "''Point'' \<noteq> ''Query''" "''Point'' \<noteq> ''Mutation''" by simp_all
    show "\<not> pruned2 ''Point''" by (simp add: pruned2_def startsWith_def)
  qed
  from r A P show ?thesis by simp
qed

text \<open>On an argument of any other type the guarded search of the second copy finds nothing.\<close>

lemma changeArgumentType2_other_type:
  "typeTypeName (ftype arg) = None \<Longrightarrow> changeArgumentType2 arg ds = Inr ds"
proof -
  assume "typeTypeName (ftype arg) = None"
  then have "findTarget2 arg ds = None"
    by (simp add: findTarget2_def findIndex_None)
  then show ?thesis by (simp add: changeArgumentType2_def)
qed

text \<open>Where the unguarded search of the first copy returns, it returns what the guarded one does.\<close>

lemma findTarget1_findTarget2: "findTarget1 arg ds = Inr r \<Longrightarrow> findTarget2 arg ds = r"
proof (induction ds arbitrary: r)
  case Nil
  then show ?case by (simp add: findTarget2_def)
next
  case (Cons d ds)
  then show ?case
    by (auto simp: findTarget2_def split: if_splits option.splits sum.splits)
qed

lemma changeArgumentType1_changeArgumentType2:
  "changeArgumentType1 arg ds = Inr ds' \<Longrightarrow> changeArgumentType2 arg ds = Inr ds'"
  by (auto simp: changeArgumentType1_def changeArgumentType2_def
           split: sum.splits option.splits dest: findTarget1_findTarget2)

lemma forEach_same:
  assumes "\<And>x a b. f x a = Inr b \<Longrightarrow> g x a = Inr b"
  shows "forEach f xs s = Inr s' \<Longrightarrow> forEach g xs s = Inr s'"
proof (induction xs arbitrary: s)
  case Nil
  then show ?case by simp
next
  case (Cons x xs)
  from Cons.prems obtain b where b: "f x s = Inr b" "forEach f xs b = Inr s'"
    by (auto split: sum.splits)
  from assms[OF b(1)] Cons.IH[OF b(2)] show ?case by simp
qed

lemma bindField_same:
  "bindField changeArgumentType1 opName q jf s = Inr s'
     \<Longrightarrow> bindField changeArgumentType2 opName q jf s = Inr s'"
  unfolding bindField_def
  by (auto split: option.splits
           intro: forEach_same[of changeArgumentType1 changeArgumentType2]
                  changeArgumentType1_changeArgumentType2)

lemma bindFields_same:
  "forEach (bindField changeArgumentType1 opName q) jfs s = Inr s'
     \<Longrightarrow> forEach (bindField changeArgumentType2 opName q) jfs s = Inr s'"
  by (erule forEach_same[rotated]) (erule bindField_same)

lemma bindArguments_same:
  "bindArguments changeArgumentType1 opName s = Inr s'
     \<Longrightarrow> bindArguments changeArgumentType2 opName s = Inr s'"
  unfolding bindArguments_def by (auto split: option.splits intro: bindFields_same)

text \<open>
  The same for the Mutation pass of the first copy, whenever that rewrite returns a
  document: for the operation type \<^verbatim>\<open>Mutation\<close> at position \<open>q\<close> of the repositioned
  document, its field \<open>j\<close>, the document \<open>sj\<close> when the loop reaches that field and the
  Args definition \<open>a\<close> found there, every argument field whose type is a non-null or list
  wrapper directly around a named type \<open>n\<close> puts the first object type named \<open>n\<close> of the
  input into the output as an input type.
\<close>

theorem bound_argument_type_reclassified_Mutation1:
  assumes out: "rewrite1 ds = Inr out"
    and q: "findIndex (isObjectNamed ''Mutation'') (reposition ds) = Some q"
    and j: "j < length (fields' (reposition ds ! q))"
    and sj: "forEach (bindField changeArgumentType1 ''Mutation'' q)
               (take j (enumerate 0 (fields' (reposition ds ! q)))) (reposition ds) = Inr sj"
    and a: "findIndex (isArgsOf ''Mutation'' (fname (fields' (reposition ds ! q) ! j))) sj = Some a"
    and arg: "arg \<in> set (fields' (sj ! a))" "typeTypeName (ftype arg) = Some n"
    and t: "find (isObjectNamed n) ds = Some t"
    and n: "n \<noteq> ''Query''" "n \<noteq> ''Mutation''" "\<not> pruned1 n"
  shows "t\<lparr>kind := InputObjectTypeDefinition\<rparr> \<in> set out"
proof -
  let ?s0 = "reposition ds"
  from out obtain s1 s2 where
    s1: "bindArguments changeArgumentType1 ''Mutation'' ?s0 = Inr s1" and
    s2: "bindArguments keepArgumentType ''Query'' s1 = Inr s2" and
    pr: "prune1 s2 = Inr out"
    by (auto simp: rewrite1_def split: sum.splits)
  have ev1: "list_all2 evolved ?s0 s1"
    using s1 by (rule bindArguments_evolved[rotated 2]) (auto dest: changeArgumentType1_evolved)
  have ev12: "list_all2 evolved s1 s2"
    using s2 by (rule bindArguments_evolved[rotated 2]) (auto dest: keepArgumentType_evolved)
  from ev1 ev12 have ev2: "list_all2 evolved ?s0 s2" by (rule all_evolved_trans)
  from t n(1) have "find (isObjectNamed n) ?s0 = Some t" by (simp add: find_reposition)
  then obtain i1 where i1: "findIndex (isObjectNamed n) ?s0 = Some i1" "?s0 ! i1 = t"
    by (auto dest: find_findIndex)
  from s1 have s1': "bindArguments changeArgumentType2 ''Mutation'' ?s0 = Inr s1"
    by (rule bindArguments_same)
  from sj have sj': "forEach (bindField changeArgumentType2 ''Mutation'' q)
               (take j (enumerate 0 (fields' (?s0 ! q)))) ?s0 = Inr sj"
    by (rule bindFields_same)
  have "kind (s1 ! i1) = InputObjectTypeDefinition"
    using all_evolved_refl[of ?s0] q j sj' a arg i1(1) s1'
    by (intro bindArguments_target[where s = ?s0 and ?s0.0 = ?s0 and opName = "''Mutation''"
          and q = q and j = j and sj = sj and a = a and arg = arg and n = n]) simp_all
  moreover have "i1 < length s1"
    using findIndex_Some[OF i1(1)] ev1 by (simp add: all_evolved_length)
  ultimately have k: "kind (s2 ! i1) = InputObjectTypeDefinition"
    using ev12 by (intro all_evolved_Input[of s1 s2])
  from pr have "out = filter (\<lambda>d. \<not> pruned1 (name d)) s2"
    by (auto simp: prune1_def pruned1_def split: if_splits intro: filter_cong)
  moreover have "(?s0 ! i1)\<lparr>kind := InputObjectTypeDefinition\<rparr>
      \<in> set (filter (\<lambda>d. \<not> pruned1 (name d)) s2)"
    using ev2 i1(1) k n by (rule reclassified_survives[where P = pruned1])
  ultimately show ?thesis using i1(2) by simp
qed

theorem bound_argument_type_reclassified_Mutation1_witness:
  "(objectType ''Address'' [FieldDefinition ''street'' [] (NamedType ''String'')])
        \<lparr>kind := InputObjectTypeDefinition\<rparr>
       \<in> set
     [inputType ''Address'' [FieldDefinition ''street'' [] (NamedType ''String'')],
      objectType ''Mutation'' [FieldDefinition ''add''
         [FieldDefinition ''where'' [] (NonNullType (NamedType ''Address''))] (NamedType ''Int'')]]"
proof -
  let ?Address = "objectType ''Address'' [FieldDefinition ''street'' [] (NamedType ''String'')]"
  let ?MArgs = "objectType ''MutationaddArgs''
        [FieldDefinition ''where'' [] (NonNullType (NamedType ''Address''))]"
  let ?Mutation = "objectType ''Mutation'' [FieldDefinition ''add'' [] (NamedType ''Int'')]"
  let ?ds = "[?Address, ?MArgs, ?Mutation]"
  let ?out = "[inputType ''Address'' [FieldDefinition ''street'' [] (NamedType ''String'')],
      objectType ''Mutation'' [FieldDefinition ''add''
         [FieldDefinition ''where'' [] (NonNullType (NamedType ''Address''))] (NamedType ''Int'')]]"
  have s0: "reposition ?ds = ?ds" by (simp add: example_simps)
  show ?thesis
  proof (rule bound_argument_type_reclassified_Mutation1[where ds = ?ds and q = 2 and j = 0
        and sj = ?ds and a = 1
        and arg = "FieldDefinition ''where'' [] (NonNullType (NamedType ''Address''))"
        and n = "''Address''"])
    show "rewrite1 ?ds = Inr ?out" by (simp add: example_simps)
    show "findIndex (isObjectNamed ''Mutation'') (reposition ?ds) = Some 2"
      unfolding s0 by (simp add: isObjectNamed_def objectType_def)
    show "0 < length (fields' (reposition ?ds ! 2))" unfolding s0 by (simp add: objectType_def)
    show "forEach (bindField changeArgumentType1 ''Mutation'' 2)
               (take 0 (enumerate 0 (fields' (reposition ?ds ! 2)))) (reposition ?ds) = Inr ?ds"
      unfolding s0 by simp
    show "findIndex (isArgsOf ''Mutation'' (fname (fields' (reposition ?ds ! 2) ! 0))) ?ds = Some 1"
      unfolding s0 by (simp add: example_simps)
    show "FieldDefinition ''where'' [] (NonNullType (NamedType ''Address'')) \<in> set (fields' (?ds ! 1))"
      by (simp add: objectType_def)
    show "typeTypeName (ftype (FieldDefinition ''where'' [] (NonNullType (NamedType ''Address''))))
        = Some ''Address''" by simp
    show "find (isObjectNamed ''Address'') ?ds = Some ?Address"
      by (simp add: isObjectNamed_def objectType_def)
    show "''Address'' \<noteq> ''Query''" "''Address'' \<noteq> ''Mutation''" by simp_all
    show "\<not> pruned1 ''Address''" by (simp add: pruned1_def startsWith_def)
  qed
qed

end
